theory Spec2Isabelle
  imports Complex_Main "HOL-Library.AList"
begin

section \<open>Time Series Brush Slicer: the data model of \<^verbatim>\<open>src/visual.ts\<close>\<close>

text \<open>
  Instants are the integer millisecond time values of JavaScript \<^verbatim>\<open>Date\<close> objects
  (\<^typ>\<open>int\<close>). Finite numbers are exact rationals (\<^typ>\<open>rat\<close>): the rounding of
  IEEE doubles and infinite cell values are outside this embedding. \<^verbatim>\<open>null\<close> and
  \<^verbatim>\<open>undefined\<close> cells are the one constructor \<open>PNull\<close>; an invalid \<^verbatim>\<open>Date\<close> is
  \<open>PDate None\<close>.
\<close>

datatype prim = PNull | PNum rat | PNaN | PStr string | PBool bool | PDate "int option"

datatype jsnum = Num rat | NaN

datatype selection_id = CategoryId nat | EmptyId

text \<open>
  The built-ins of the JavaScript engine that the visual calls and whose results depend
  on the engine or on the local time zone are parameters: \<^verbatim>\<open>new Date(string).getTime()\<close>,
  \<^verbatim>\<open>Number(string)\<close> and \<^verbatim>\<open>parseFloat(string)\<close> (\<open>None\<close> for \<^verbatim>\<open>NaN\<close>), \<^verbatim>\<open>String(v)\<close>,
  \<^verbatim>\<open>Date.prototype.toISOString\<close> and the local-time getters of \<^verbatim>\<open>Date\<close>.
\<close>

record date_fields =
  fullYear :: int
  month0 :: nat
  dayOfMonth :: nat
  hours :: nat
  minutes :: nat
  seconds :: nat
  milliseconds :: nat

record js_env =
  date_parse :: "string \<Rightarrow> int option"
  str_to_number :: "string \<Rightarrow> rat option"
  parse_float :: "string \<Rightarrow> rat option"
  to_str :: "prim \<Rightarrow> string"
  toISOString :: "int \<Rightarrow> string"
  local_fields :: "int \<Rightarrow> date_fields"

record TimeDataPoint =
  timestamp :: int
  pvalue :: "rat option"
  series :: string
  anomaly :: "jsnum option"
  timelineMarker :: "string option"
  selectionId :: selection_id
  lineColor :: "string option"
  areaColor :: "string option"
  index :: int

text \<open>
  The categorical data view of the host. A column's \<open>roles\<close> are the names of the roles
  set on its source; \<open>c_objects\<close> holds, per row, the conditional-formatting colours
  \<^verbatim>\<open>dataPoint.fill.solid.color\<close> and \<^verbatim>\<open>areaSettingsGroup.fill.solid.color\<close>
  (\<open>None\<close> when any link of the chain is missing or falsy). An absent
  \<^verbatim>\<open>queryName\<close> is the empty string, which is falsy as well.
\<close>

record category_column =
  c_roles :: "string list"
  c_values :: "prim list"
  c_queryName :: string
  c_displayName :: string
  c_objects :: "(string option \<times> string option) list"

record value_column =
  v_roles :: "string list"
  v_values :: "prim list"

record vgroup =
  g_name :: prim
  g_values :: "value_column list"

record categorical_view =
  categories :: "category_column list option"
  grouped_values :: "vgroup list option"

record dataview =
  categorical :: "categorical_view option"

subsection \<open>JavaScript primitives\<close>

definition truthy :: "prim \<Rightarrow> bool" where
  "truthy v = (case v of PNull \<Rightarrow> False | PNum r \<Rightarrow> r \<noteq> 0 | PNaN \<Rightarrow> False
     | PStr s \<Rightarrow> s \<noteq> [] | PBool b \<Rightarrow> b | PDate t \<Rightarrow> True)"

definition cell_at :: "prim list \<Rightarrow> nat \<Rightarrow> prim" where
  "cell_at xs i = (if i < length xs then xs ! i else PNull)"

definition trunc_rat :: "rat \<Rightarrow> int" where
  "trunc_rat r = (if 0 \<le> r then \<lfloor>r\<rfloor> else \<lceil>r\<rceil>)"

definition time_clip :: "rat \<Rightarrow> int option" where
  "time_clip r = (if \<bar>r\<bar> > 8640000000000000 then None else Some (trunc_rat r))"

definition to_number :: "js_env \<Rightarrow> prim \<Rightarrow> rat option" where
  "to_number env v = (case v of PNull \<Rightarrow> None | PNum r \<Rightarrow> Some r | PNaN \<Rightarrow> None
     | PStr s \<Rightarrow> str_to_number env s | PBool b \<Rightarrow> Some (if b then 1 else 0)
     | PDate t \<Rightarrow> map_option of_int t)"

definition is_ws :: "char \<Rightarrow> bool" where
  "is_ws c = (c \<in> set [CHR '' '', CHR 0x09, CHR 0x0A, CHR 0x0B, CHR 0x0C, CHR 0x0D])"

definition trim :: "string \<Rightarrow> string" where
  "trim s = rev (dropWhile is_ws (rev (dropWhile is_ws s)))"

definition has_role :: "string \<Rightarrow> string list \<Rightarrow> bool" where
  "has_role r rs = (r \<in> set rs)"

subsection \<open>parseData\<close>

definition parseDate :: "js_env \<Rightarrow> prim \<Rightarrow> int option" where
  "parseDate env ts = (case ts of PDate t \<Rightarrow> t | PNum r \<Rightarrow> time_clip r | PNaN \<Rightarrow> None
     | PStr s \<Rightarrow> date_parse env s | PNull \<Rightarrow> None | PBool b \<Rightarrow> None)"

text \<open>First pass: the map \<^verbatim>\<open>globalMarkers\<close> from instants to marker texts.\<close>

definition marker_step :: "js_env \<Rightarrow> prim list \<Rightarrow> prim list \<Rightarrow> nat \<Rightarrow> (int \<rightharpoonup> string) \<Rightarrow> (int \<rightharpoonup> string)" where
  "marker_step env timestamps mvals i gm =
     (case parseDate env (timestamps ! i) of
        None \<Rightarrow> gm
      | Some time \<Rightarrow>
          if truthy (cell_at mvals i)
          then (let m = to_str env (cell_at mvals i)
                in if m \<noteq> [] \<and> trim m \<noteq> [] then gm(time \<mapsto> m) else gm)
          else gm)"

definition group_markers :: "js_env \<Rightarrow> prim list \<Rightarrow> vgroup \<Rightarrow> (int \<rightharpoonup> string) \<Rightarrow> (int \<rightharpoonup> string)" where
  "group_markers env timestamps g gm =
     (case find (\<lambda>v. has_role ''timelineMarkers'' (v_roles v)) (g_values g) of
        None \<Rightarrow> gm
      | Some mm \<Rightarrow> fold (marker_step env timestamps (v_values mm)) [0..<length timestamps] gm)"

definition globalMarkers :: "js_env \<Rightarrow> prim list \<Rightarrow> vgroup list \<Rightarrow> (int \<rightharpoonup> string)" where
  "globalMarkers env timestamps groups = fold (group_markers env timestamps) groups Map.empty"

text \<open>Second pass: one point per group and per row whose timestamp parses.\<close>

definition coerce_value :: "js_env \<Rightarrow> value_column option \<Rightarrow> nat \<Rightarrow> rat option" where
  "coerce_value env valueMeasure i =
     (case valueMeasure of
        None \<Rightarrow> None
      | Some m \<Rightarrow>
          (let rawVal = cell_at (v_values m) i
           in if rawVal = PNull \<or> rawVal = PStr [] then None else to_number env rawVal))"

definition coerce_anomaly :: "js_env \<Rightarrow> value_column option \<Rightarrow> nat \<Rightarrow> jsnum option" where
  "coerce_anomaly env anomalyMeasure i =
     (case anomalyMeasure of
        None \<Rightarrow> None
      | Some m \<Rightarrow>
          (let rawAnomaly = cell_at (v_values m) i
           in if rawAnomaly = PNull \<or> rawAnomaly = PStr [] then None
              else (case to_number env rawAnomaly of None \<Rightarrow> Some NaN | Some r \<Rightarrow> Some (Num r))))"

definition row_objects :: "category_column \<Rightarrow> nat \<Rightarrow> string option \<times> string option" where
  "row_objects c i = (if i < length (c_objects c) then c_objects c ! i else (None, None))"

definition seriesName_of :: "js_env \<Rightarrow> vgroup \<Rightarrow> string" where
  "seriesName_of env g = (if truthy (g_name g) then to_str env (g_name g) else ''default'')"

definition valueMeasure_of :: "vgroup \<Rightarrow> value_column option" where
  "valueMeasure_of g = find (\<lambda>v. has_role ''values'' (v_roles v)) (g_values g)"

definition anomalyMeasure_of :: "vgroup \<Rightarrow> value_column option" where
  "anomalyMeasure_of g = find (\<lambda>v. has_role ''anomalies'' (v_roles v)) (g_values g)"

definition row_point :: "js_env \<Rightarrow> category_column \<Rightarrow> (int \<rightharpoonup> string) \<Rightarrow> vgroup \<Rightarrow> nat \<Rightarrow> TimeDataPoint list" where
  "row_point env timestampCategory gm g i =
     (case parseDate env (c_values timestampCategory ! i) of
        None \<Rightarrow> []
      | Some time \<Rightarrow>
          [\<lparr> timestamp = time,
             pvalue = coerce_value env (valueMeasure_of g) i,
             series = seriesName_of env g,
             anomaly = coerce_anomaly env (anomalyMeasure_of g) i,
             timelineMarker = gm time,
             selectionId = CategoryId i,
             lineColor = fst (row_objects timestampCategory i),
             areaColor = snd (row_objects timestampCategory i),
             index = int i \<rparr>])"

definition group_points :: "js_env \<Rightarrow> category_column \<Rightarrow> (int \<rightharpoonup> string) \<Rightarrow> vgroup \<Rightarrow> TimeDataPoint list" where
  "group_points env timestampCategory gm g =
     concat (map (row_point env timestampCategory gm g) [0..<length (c_values timestampCategory)])"

definition raw_points :: "js_env \<Rightarrow> category_column \<Rightarrow> vgroup list \<Rightarrow> TimeDataPoint list" where
  "raw_points env timestampCategory groups =
     concat (map (group_points env timestampCategory
                    (globalMarkers env (c_values timestampCategory) groups)) groups)"

text \<open>Post-processing: grouping by series in first-appearance order, as a \<^verbatim>\<open>Map\<close> iterates.\<close>

definition series_key :: "TimeDataPoint \<Rightarrow> string" where
  "series_key d = (if series d = [] then ''default'' else series d)"

fun first_keys :: "string list \<Rightarrow> string list" where
  "first_keys [] = []"
| "first_keys (k # ks) = k # filter (\<lambda>x. x \<noteq> k) (first_keys ks)"

definition series_points :: "string \<Rightarrow> TimeDataPoint list \<Rightarrow> TimeDataPoint list" where
  "series_points s ds = filter (\<lambda>d. series_key d = s) ds"

definition seriesMap :: "TimeDataPoint list \<Rightarrow> (string \<times> TimeDataPoint list) list" where
  "seriesMap ds = map (\<lambda>s. (s, series_points s ds)) (first_keys (map series_key ds))"

fun diffs_loop :: "TimeDataPoint \<Rightarrow> TimeDataPoint list \<Rightarrow> int list" where
  "diffs_loop prev [] = []"
| "diffs_loop prev (cur # rest) =
     (let diff = timestamp cur - timestamp prev
      in (if diff > 0 then [diff] else []) @ diffs_loop cur rest)"

definition medianDiff :: "TimeDataPoint list \<Rightarrow> int" where
  "medianDiff points =
     (let diffs = sort (diffs_loop (hd points) (tl points))
      in if length diffs > 0 then diffs ! (length diffs div 2) else 0)"

definition gapThreshold :: "int \<Rightarrow> int" where
  "gapThreshold m = (if m > 0 then m * 3 else 0)"

definition gap_point :: "string \<Rightarrow> int \<Rightarrow> TimeDataPoint" where
  "gap_point s t =
     \<lparr> timestamp = t, pvalue = None, series = s, anomaly = None, timelineMarker = None,
       selectionId = EmptyId, lineColor = None, areaColor = None, index = - 1 \<rparr>"

fun gap_loop :: "int \<Rightarrow> string \<Rightarrow> TimeDataPoint \<Rightarrow> TimeDataPoint list \<Rightarrow> TimeDataPoint list" where
  "gap_loop m s prev [] = []"
| "gap_loop m s prev (cur # rest) =
     (let diff = timestamp cur - timestamp prev
      in (if gapThreshold m > 0 \<and> diff > gapThreshold m
          then [gap_point s (timestamp prev + m)] else [])
         @ cur # gap_loop m s cur rest)"

definition process_series :: "string \<Rightarrow> TimeDataPoint list \<Rightarrow> TimeDataPoint list" where
  "process_series s pts =
     (let points = sort_key timestamp pts
      in if length points < 2 then points
         else hd points # gap_loop (medianDiff points) s (hd points) (tl points))"

definition detect_gaps :: "TimeDataPoint list \<Rightarrow> TimeDataPoint list" where
  "detect_gaps ds =
     sort_key timestamp (concat (map (\<lambda>(s, pts). process_series s pts) (seriesMap ds)))"

text \<open>
  The early returns at the head of \<^verbatim>\<open>parseData\<close>: the timestamp column and the value
  groups, when the data view has them; otherwise the data stay empty.
\<close>

definition resolve_columns :: "dataview option \<Rightarrow> (category_column \<times> vgroup list) option" where
  "resolve_columns dataViews =
     (case dataViews of
        None \<Rightarrow> None
      | Some dataView \<Rightarrow>
     (case categorical dataView of
        None \<Rightarrow> None
      | Some cat \<Rightarrow>
     (case (categories cat, grouped_values cat) of
        (Some cats, Some groups) \<Rightarrow>
          if cats = [] then None
          else (case find (\<lambda>c. has_role ''timestamp'' (c_roles c)) cats of
                  None \<Rightarrow> None
                | Some timestampCategory \<Rightarrow>
                    if c_values timestampCategory = [] then None
                    else Some (timestampCategory, groups))
      | _ \<Rightarrow> None)))"

definition parseData :: "js_env \<Rightarrow> dataview option \<Rightarrow> TimeDataPoint list" where
  "parseData env dataViews =
     (case resolve_columns dataViews of
        None \<Rightarrow> []
      | Some (timestampCategory, groups) \<Rightarrow> detect_gaps (raw_points env timestampCategory groups))"

text \<open>The points pushed by the row loops, before the gap post-processing.\<close>

definition parsed_rows :: "js_env \<Rightarrow> dataview option \<Rightarrow> TimeDataPoint list" where
  "parsed_rows env dataViews =
     (case resolve_columns dataViews of
        None \<Rightarrow> []
      | Some (timestampCategory, groups) \<Rightarrow> raw_points env timestampCategory groups)"

subsection \<open>Marker overlays of renderChart\<close>

definition anomalyPoints :: "TimeDataPoint list \<Rightarrow> TimeDataPoint list" where
  "anomalyPoints ds = filter (\<lambda>d. anomaly d \<noteq> None) ds"

text \<open>
  \<^verbatim>\<open>uniqueMarkers\<close> is a \<^verbatim>\<open>Map\<close> keyed by instant: a later point with the same instant
  replaces the entry in place, a new instant is appended.
\<close>

definition uniqueMarkers :: "TimeDataPoint list \<Rightarrow> (int \<times> TimeDataPoint) list" where
  "uniqueMarkers ds =
     fold (\<lambda>d um. if timelineMarker d \<noteq> None then AList.update (timestamp d) d um else um) ds []"

definition timelinePoints :: "TimeDataPoint list \<Rightarrow> TimeDataPoint list" where
  "timelinePoints ds = map snd (uniqueMarkers ds)"

subsection \<open>Formatting settings\<close>

text \<open>
  The slices of the formatting model that the modelled code reads. A field is \<open>None\<close>
  when the slice value is \<^verbatim>\<open>null\<close> or \<^verbatim>\<open>undefined\<close>; the visual's field
  \<^verbatim>\<open>formattingSettings\<close> is itself undefined until the first update with a data view.
  \<open>chain\<close> is the optional chain \<^verbatim>\<open>this.formattingSettings?.card?.slice?.value\<close>,
  \<open>setting\<close> the same followed by \<^verbatim>\<open>?? d\<close>.
\<close>

record settings =
  yAxisMin :: "string option"
  yAxisMax :: "string option"
  delimiter :: "string option"
  useISOFormat :: "bool option"
  outputFormat :: "string option"
  dateFormat :: "string option"
  prefix :: "string option"
  marginLeft :: "rat option"
  marginRight :: "rat option"

definition setting :: "(settings \<Rightarrow> 'a option) \<Rightarrow> 'a \<Rightarrow> settings option \<Rightarrow> 'a" where
  "setting f d fs = (case fs of None \<Rightarrow> d | Some m \<Rightarrow> (case f m of None \<Rightarrow> d | Some v \<Rightarrow> v))"

definition chain :: "(settings \<Rightarrow> 'a option) \<Rightarrow> settings option \<Rightarrow> 'a option" where
  "chain f fs = (case fs of None \<Rightarrow> None | Some m \<Rightarrow> f m)"

subsection \<open>Value scales of renderChart\<close>

fun d3_min :: "'a::linorder list \<Rightarrow> 'a option" where
  "d3_min [] = None"
| "d3_min (v # vs) = Some (fold min vs v)"

fun d3_max :: "'a::linorder list \<Rightarrow> 'a option" where
  "d3_max [] = None"
| "d3_max (v # vs) = Some (fold max vs v)"

text \<open>\<^verbatim>\<open>x || d\<close> on a number: \<^verbatim>\<open>undefined\<close> and \<^verbatim>\<open>0\<close> are both falsy.\<close>

definition js_or :: "rat option \<Rightarrow> rat \<Rightarrow> rat" where
  "js_or x d = (case x of None \<Rightarrow> d | Some v \<Rightarrow> if v = 0 then d else v)"

definition manual_bound :: "js_env \<Rightarrow> string option \<Rightarrow> rat option" where
  "manual_bound env x =
     (case x of None \<Rightarrow> None | Some str \<Rightarrow> if str = [] then None else parse_float env str)"

definition validValues :: "TimeDataPoint list \<Rightarrow> rat list" where
  "validValues points = concat (map (\<lambda>d. case pvalue d of None \<Rightarrow> [] | Some v \<Rightarrow> [v]) points)"

definition y_domain :: "js_env \<Rightarrow> settings option \<Rightarrow> bool \<Rightarrow> TimeDataPoint list \<Rightarrow> rat \<times> rat" where
  "y_domain env fs isMulti points =
     (let yMin0 = js_or (d3_min (validValues points)) 0;
          yMax0 = js_or (d3_max (validValues points)) 1;
          yMin = (if \<not> isMulti
                  then (case manual_bound env (chain yAxisMin fs) of
                          Some v \<Rightarrow> v | None \<Rightarrow> yMin0)
                  else yMin0);
          yMax = (if \<not> isMulti
                  then (case manual_bound env (chain yAxisMax fs) of
                          Some v \<Rightarrow> v | None \<Rightarrow> yMax0)
                  else yMax0)
      in if yMin = yMax then (yMin - 1, yMax + 1)
         else (let padding = (yMax - yMin) * (1 / 10) in (yMin - padding, yMax + padding)))"

definition isMultiSeries :: "string list \<Rightarrow> bool" where
  "isMultiSeries seriesNames =
     (length seriesNames > 1 \<or> (length seriesNames = 1 \<and> seriesNames ! 0 \<noteq> ''default''))"

definition seriesNames :: "TimeDataPoint list \<Rightarrow> string list" where
  "seriesNames ds = map fst (seriesMap ds)"

definition yScales :: "js_env \<Rightarrow> settings option \<Rightarrow> TimeDataPoint list \<Rightarrow> (string \<times> rat \<times> rat) list" where
  "yScales env fs ds =
     map (\<lambda>(s, points). (s, y_domain env fs (isMultiSeries (seriesNames ds)) points)) (seriesMap ds)"

text \<open>
  The value domain as the specification words it: the minimum and maximum of the
  non-absent values, expanded by one when they coincide and padded by a tenth of the range
  otherwise.
\<close>

definition value_domain_spec :: "rat list \<Rightarrow> rat \<times> rat" where
  "value_domain_spec vs =
     (let lo = Min (set vs); hi = Max (set vs)
      in if lo = hi then (lo - 1, hi + 1) else (lo - (hi - lo) / 10, hi + (hi - lo) / 10))"

subsection \<open>createDateFormatter\<close>

definition digit_char :: "nat \<Rightarrow> char" where
  "digit_char d = ''0123456789'' ! d"

function show_nat :: "nat \<Rightarrow> string" where
  "show_nat n = (if n < 10 then [digit_char n] else show_nat (n div 10) @ [digit_char (n mod 10)])"
  by pat_completeness auto
termination
  by (relation "measure (\<lambda>n. n)") auto

definition show_int :: "int \<Rightarrow> string" where
  "show_int i = (if i < 0 then CHR ''-'' # show_nat (nat (- i)) else show_nat (nat i))"

definition padStart :: "nat \<Rightarrow> string \<Rightarrow> string" where
  "padStart len s = replicate (len - length s) CHR ''0'' @ s"

definition pad :: "nat \<Rightarrow> nat \<Rightarrow> string" where
  "pad n len = padStart len (show_nat n)"

definition months :: "string list" where
  "months = [''Jan'', ''Feb'', ''Mar'', ''Apr'', ''May'', ''Jun'',
             ''Jul'', ''Aug'', ''Sep'', ''Oct'', ''Nov'', ''Dec'']"

definition fullMonths :: "string list" where
  "fullMonths = [''January'', ''February'', ''March'', ''April'', ''May'', ''June'', ''July'',
                 ''August'', ''September'', ''October'', ''November'', ''December'']"

text \<open>
  \<^verbatim>\<open>result.replace(/pat/g, rep)\<close> for a literal pattern: every leftmost non-overlapping
  occurrence, the replacement text not being rescanned. \<open>replace_nla\<close> is the same for a
  one-letter pattern with the negative lookahead \<^verbatim>\<open>(?![a-z])\<close>.
\<close>

function replace_all :: "string \<Rightarrow> string \<Rightarrow> string \<Rightarrow> string" where
  "replace_all pat rep s =
     (if s = [] \<or> pat = [] then s
      else if take (length pat) s = pat then rep @ replace_all pat rep (drop (length pat) s)
      else hd s # replace_all pat rep (tl s))"
  by pat_completeness auto
termination
  by (relation "measure (\<lambda>(pat, rep, s). length s)") auto

definition is_lower :: "char \<Rightarrow> bool" where
  "is_lower c = (c \<in> set ''abcdefghijklmnopqrstuvwxyz'')"

fun replace_nla :: "char \<Rightarrow> string \<Rightarrow> string \<Rightarrow> string" where
  "replace_nla ch rep [] = []"
| "replace_nla ch rep [c] = (if c = ch then rep else [c])"
| "replace_nla ch rep (c # d # cs) =
     (if c = ch \<and> \<not> is_lower d then rep @ replace_nla ch rep (d # cs)
      else c # replace_nla ch rep (d # cs))"

definition hour12 :: "nat \<Rightarrow> nat" where
  "hour12 h = (if h mod 12 = 0 then 12 else h mod 12)"

definition createDateFormatter :: "js_env \<Rightarrow> string \<Rightarrow> int \<Rightarrow> string" where
  "createDateFormatter env format date =
     (let f = local_fields env date;
          result = format;
          result = replace_all ''yyyy'' (show_int (fullYear f)) result;
          result = replace_all ''yy'' (let y = show_int (fullYear f) in drop (length y - 2) y) result;
          result = replace_all ''MMMM'' (fullMonths ! month0 f) result;
          result = replace_all ''MMM'' (months ! month0 f) result;
          result = replace_all ''MM'' (pad (month0 f + 1) 2) result;
          result = replace_nla CHR ''M'' (show_nat (month0 f + 1)) result;
          result = replace_all ''dd'' (pad (dayOfMonth f) 2) result;
          result = replace_nla CHR ''d'' (show_nat (dayOfMonth f)) result;
          result = replace_all ''HH'' (pad (hours f) 2) result;
          result = replace_nla CHR ''H'' (show_nat (hours f)) result;
          result = replace_all ''hh'' (pad (hour12 (hours f)) 2) result;
          result = replace_nla CHR ''h'' (show_nat (hour12 (hours f))) result;
          result = replace_all ''mm'' (pad (minutes f) 2) result;
          result = replace_nla CHR ''m'' (show_nat (minutes f)) result;
          result = replace_all ''ss'' (pad (seconds f) 2) result;
          result = replace_nla CHR ''s'' (show_nat (seconds f)) result;
          result = replace_all ''fff'' (pad (milliseconds f) 3) result;
          result = replace_all ''tt'' (if hours f \<ge> 12 then ''PM'' else ''AM'') result;
          result = replace_all ''t'' (if hours f \<ge> 12 then ''P'' else ''A'') result
      in result)"

subsection \<open>The time scale and the brush\<close>

text \<open>
  \<^verbatim>\<open>d3.scaleTime().domain([d0, d1]).range([0, r])\<close>: the scale normalises over the
  domain (the constant 1/2 when the domain is a single instant) and interpolates over the
  range as \<^verbatim>\<open>a * (1 - u) + b * u\<close>; \<^verbatim>\<open>invert\<close> does the converse and wraps the result
  in \<^verbatim>\<open>new Date\<close>, which truncates to whole milliseconds. The arithmetic is exact here.
\<close>

record xscale =
  domain0 :: int
  domain1 :: int
  range1 :: rat

definition xScale_apply :: "xscale \<Rightarrow> int \<Rightarrow> rat" where
  "xScale_apply sc t =
     (let u = (if domain1 sc = domain0 sc then 1 / 2
               else of_int (t - domain0 sc) / of_int (domain1 sc - domain0 sc))
      in 0 * (1 - u) + range1 sc * u)"

definition xScale_invert :: "xscale \<Rightarrow> rat \<Rightarrow> int" where
  "xScale_invert sc x =
     (let u = (if range1 sc = 0 then 1 / 2 else x / range1 sc)
      in trunc_rat (of_int (domain0 sc) * (1 - u) + of_int (domain1 sc) * u))"

record json_filter =
  f_table :: string
  f_column :: string
  f_operator :: string
  f_value :: string

text \<open>
  The fields of the visual that the update cycle and the brush handlers read or write.
  \<open>appliedFilters\<close> logs the calls of \<^verbatim>\<open>host.applyJsonFilter\<close>; \<open>flagResetTimers\<close>
  counts the pending 50 ms callbacks that clear \<open>isProgrammaticBrushUpdate\<close>;
  \<open>brushUpdateTimeout\<close> tells whether the 16 ms display callback is pending;
  \<open>placeholderShown\<close> tells whether the scene was replaced by the no-data message. The
  formatter cache is a pure memoisation and has no field.
\<close>

record visual =
  data :: "TimeDataPoint list"
  formattingSettings :: "settings option"
  xScale :: "xscale option"
  brush :: bool
  selectedStartDate :: "int option"
  selectedEndDate :: "int option"
  filterColumnTarget :: "(string \<times> string) option"
  lastTimeRange :: "(int \<times> int) option"
  isProgrammaticBrushUpdate :: bool
  brushUpdateTimeout :: bool
  flagResetTimers :: nat
  rangeDisplay :: string
  placeholderShown :: bool
  appliedFilters :: "json_filter list"

definition initial_visual :: visual where
  "initial_visual =
     \<lparr> data = [], formattingSettings = None, xScale = None, brush = False,
       selectedStartDate = None, selectedEndDate = None, filterColumnTarget = None,
       lastTimeRange = None, isProgrammaticBrushUpdate = False, brushUpdateTimeout = False,
       flagResetTimers = 0, rangeDisplay = ''Add a timestamp field'', placeholderShown = False,
       appliedFilters = [] \<rparr>"

definition updateRangeDisplay :: "js_env \<Rightarrow> visual \<Rightarrow> visual" where
  "updateRangeDisplay env st =
     (case (selectedStartDate st, selectedEndDate st) of
        (Some a, Some b) \<Rightarrow>
          (let displayFormat = setting dateFormat ''MMM d, yyyy HH:mm:ss'' (formattingSettings st);
               pfx = setting prefix ''Effective Range'' (formattingSettings st);
               startStr = createDateFormatter env displayFormat a;
               endStr = createDateFormatter env displayFormat b;
               prefixText = (if pfx \<noteq> [] then pfx @ '': '' else [])
           in st\<lparr>rangeDisplay := prefixText @ startStr @ ''  '' @ endStr\<rparr>)
      | _ \<Rightarrow> st\<lparr>rangeDisplay := ''Select a time range''\<rparr>)"

text \<open>
  A brush event carries \<^verbatim>\<open>event.selection\<close>: a pixel interval, or \<open>None\<close> when
  cleared. Instants are always valid dates here, so nothing inside the \<^verbatim>\<open>try\<close> block of
  \<open>onBrushEnd\<close> raises; a failure of the host's \<^verbatim>\<open>applyJsonFilter\<close> is not modelled.
\<close>

definition onBrush :: "visual \<Rightarrow> (rat \<times> rat) option \<Rightarrow> visual" where
  "onBrush st selection =
     (case (selection, xScale st) of
        (Some (x0, x1), Some sc) \<Rightarrow>
          st\<lparr>selectedStartDate := Some (xScale_invert sc x0),
             selectedEndDate := Some (xScale_invert sc x1),
             brushUpdateTimeout := True\<rparr>
      | _ \<Rightarrow> st)"

definition filterValue :: "js_env \<Rightarrow> settings option \<Rightarrow> int \<Rightarrow> int \<Rightarrow> string" where
  "filterValue env fs a b =
     (let dlm = setting delimiter ''|'' fs;
          useISO = setting useISOFormat True fs;
          outStart = (if useISO then toISOString env a
                      else createDateFormatter env (setting outputFormat ''yyyy-MM-dd HH:mm:ss'' fs) a);
          outEnd = (if useISO then toISOString env b
                    else createDateFormatter env (setting outputFormat ''yyyy-MM-dd HH:mm:ss'' fs) b)
      in outStart @ dlm @ outEnd)"

definition onBrushEnd :: "js_env \<Rightarrow> visual \<Rightarrow> (rat \<times> rat) option \<Rightarrow> visual" where
  "onBrushEnd env st selection =
     (let st1 = (case (selection, xScale st) of
                   (None, Some sc) \<Rightarrow>
                     updateRangeDisplay env
                       (st\<lparr>selectedStartDate := Some (domain0 sc), selectedEndDate := Some (domain1 sc)\<rparr>)
                 | _ \<Rightarrow> st)
      in if isProgrammaticBrushUpdate st1 then st1
         else (case (selectedStartDate st1, selectedEndDate st1, filterColumnTarget st1) of
                 (Some a, Some b, Some (tbl, col)) \<Rightarrow>
                   st1\<lparr>appliedFilters := appliedFilters st1 @
                        [\<lparr> f_table = tbl, f_column = col, f_operator = ''Is'',
                           f_value = filterValue env (formattingSettings st1) a b \<rparr>]\<rparr>
               | _ \<Rightarrow> st1))"

text \<open>
  \<^verbatim>\<open>brushGroup.call(brush.move, [x0, x1])\<close> of d3-brush on a plain selection stores the
  interval and dispatches \<^verbatim>\<open>start\<close>, \<^verbatim>\<open>brush\<close> and \<^verbatim>\<open>end\<close> before it returns; the
  visual listens to the last two.
\<close>

definition brush_move :: "js_env \<Rightarrow> visual \<Rightarrow> rat \<times> rat \<Rightarrow> visual" where
  "brush_move env st sel = onBrushEnd env (onBrush st (Some sel)) (Some sel)"

definition restoreBrushSelection :: "js_env \<Rightarrow> visual \<Rightarrow> visual" where
  "restoreBrushSelection env st =
     (case (selectedStartDate st, selectedEndDate st, xScale st) of
        (Some a, Some b, Some sc) \<Rightarrow>
          if \<not> brush st then st
          else (let x0 = xScale_apply sc a;
                    x1 = xScale_apply sc b;
                    st1 = st\<lparr>isProgrammaticBrushUpdate := True\<rparr>;
                    st2 = brush_move env st1 (x0, x1);
                    st3 = updateRangeDisplay env st2
                in st3\<lparr>flagResetTimers := flagResetTimers st3 + 1\<rparr>)
      | _ \<Rightarrow> st)"

text \<open>The two timer callbacks.\<close>

definition flagResetFires :: "visual \<Rightarrow> visual" where
  "flagResetFires st =
     st\<lparr>isProgrammaticBrushUpdate := False, flagResetTimers := flagResetTimers st - 1\<rparr>"

definition displayTimerFires :: "js_env \<Rightarrow> visual \<Rightarrow> visual" where
  "displayTimerFires env st = (updateRangeDisplay env st)\<lparr>brushUpdateTimeout := False\<rparr>"

subsection \<open>update, showNoDataMessage and renderChart\<close>

record update_options =
  dataViews :: "dataview option"
  settingsModel :: settings
  viewport_width :: rat
  viewport_height :: rat

definition lastIndexOf :: "char \<Rightarrow> string \<Rightarrow> int" where
  "lastIndexOf c s =
     (case find (\<lambda>i. s ! i = c) (rev [0..<length s]) of None \<Rightarrow> - 1 | Some i \<Rightarrow> int i)"

definition filter_target :: "dataview option \<Rightarrow> (string \<times> string) option" where
  "filter_target dv =
     (case dv of None \<Rightarrow> None | Some dataView \<Rightarrow>
     (case categorical dataView of None \<Rightarrow> None | Some cat \<Rightarrow>
     (case categories cat of None \<Rightarrow> None | Some cats \<Rightarrow>
        (let fc0 = find (\<lambda>c. has_role ''filterField'' (c_roles c)) cats;
             fc1 = (if fc0 = None \<and> length cats > 1
                    then find (\<lambda>c. \<not> has_role ''timestamp'' (c_roles c)) cats else fc0);
             fc2 = (if fc1 = None
                    then find (\<lambda>c. has_role ''timestamp'' (c_roles c)) cats else fc1)
         in case fc2 of
              None \<Rightarrow> None
            | Some filterCategory \<Rightarrow>
                if c_queryName filterCategory = [] then None
                else (let queryName = c_queryName filterCategory;
                          dotIndex = lastIndexOf CHR ''.'' queryName
                      in if dotIndex > 0
                         then Some (take (nat dotIndex) queryName, drop (nat dotIndex + 1) queryName)
                         else Some ([], c_displayName filterCategory))))))"

definition showNoDataMessage :: "visual \<Rightarrow> visual" where
  "showNoDataMessage st =
     st\<lparr>rangeDisplay := ''Add a timestamp field and data to use the time brush slicer'',
        placeholderShown := True\<rparr>"

definition timeExtent :: "TimeDataPoint list \<Rightarrow> (int \<times> int) option" where
  "timeExtent ds =
     (case (d3_min (map timestamp ds), d3_max (map timestamp ds)) of
        (Some a, Some b) \<Rightarrow> Some (a, b)
      | _ \<Rightarrow> None)"

definition chartWidth :: "settings option \<Rightarrow> rat \<Rightarrow> rat" where
  "chartWidth fs width = max 50 (width - setting marginLeft 0 fs - setting marginRight 0 fs)"

text \<open>
  \<open>renderChart\<close> reads \<^verbatim>\<open>timeExtent[0].getTime()\<close>, which raises a \<^verbatim>\<open>TypeError\<close> on
  empty data: the result \<open>None\<close>. The drawing of the series, axis and markers writes no
  field of the visual; the value domains and marker lists it uses are \<open>yScales\<close>,
  \<open>anomalyPoints\<close> and \<open>timelinePoints\<close> above.
\<close>

definition renderChart :: "js_env \<Rightarrow> rat \<Rightarrow> rat \<Rightarrow> visual \<Rightarrow> visual option" where
  "renderChart env width height st =
     (case timeExtent (data st) of
        None \<Rightarrow> None
      | Some (newMin, newMax) \<Rightarrow>
          (let cw = chartWidth (formattingSettings st) width;
               st1 = (case lastTimeRange st of
                        Some (oldMin, oldMax) \<Rightarrow>
                          if oldMin \<noteq> newMin \<or> oldMax \<noteq> newMax
                          then st\<lparr>selectedStartDate := None, selectedEndDate := None\<rparr>
                          else st
                      | None \<Rightarrow> st);
               st2 = st1\<lparr>lastTimeRange := Some (newMin, newMax),
                         xScale := Some \<lparr>domain0 = newMin, domain1 = newMax, range1 = cw\<rparr>,
                         placeholderShown := False\<rparr>;
               st3 = st2\<lparr>brush := True\<rparr>
           in if selectedStartDate st3 \<noteq> None \<and> selectedEndDate st3 \<noteq> None
              then Some (restoreBrushSelection env st3)
              else Some (brush_move env
                           (updateRangeDisplay env
                              (st3\<lparr>selectedStartDate := Some newMin, selectedEndDate := Some newMax\<rparr>))
                           (0, cw))))"

text \<open>
  The head of \<open>update\<close>, up to the viewport check: the data are parsed, the settings
  populated and the filter target resolved. (The per-series colour pickers built there are
  not modelled.)
\<close>

definition prepare :: "js_env \<Rightarrow> update_options \<Rightarrow> visual \<Rightarrow> visual" where
  "prepare env options st =
     (let st1 = st\<lparr>data := parseData env (dataViews options)\<rparr>;
          st2 = (if dataViews options \<noteq> None
                 then st1\<lparr>formattingSettings := Some (settingsModel options)\<rparr> else st1)
      in st2\<lparr>filterColumnTarget := filter_target (dataViews options)\<rparr>)"

definition update :: "js_env \<Rightarrow> update_options \<Rightarrow> visual \<Rightarrow> visual option" where
  "update env options st =
     (let st3 = prepare env options st;
          width = max 0 (viewport_width options);
          height = max 0 (viewport_height options)
      in if width < 100 \<or> height < 50 then Some (showNoDataMessage st3)
         else if data st3 = [] then Some (showNoDataMessage st3)
         else renderChart env width height st3)"

text \<open>
  The events the visual reacts to: a host update, the brush and end events of a user
  gesture, and the two timer callbacks.
\<close>

datatype event =
    Update update_options
  | BrushEvent "(rat \<times> rat) option"
  | EndEvent "(rat \<times> rat) option"
  | FlagResetTimer
  | DisplayTimer

definition step :: "js_env \<Rightarrow> event \<Rightarrow> visual \<Rightarrow> visual option" where
  "step env e st =
     (case e of
        Update options \<Rightarrow> update env options st
      | BrushEvent selection \<Rightarrow> Some (onBrush st selection)
      | EndEvent selection \<Rightarrow> Some (onBrushEnd env st selection)
      | FlagResetTimer \<Rightarrow> Some (flagResetFires st)
      | DisplayTimer \<Rightarrow> Some (displayTimerFires env st))"

text \<open>Once an extent is recorded, a selection exists.\<close>

definition selection_recorded :: "visual \<Rightarrow> bool" where
  "selection_recorded st =
     (lastTimeRange st = None \<or> (selectedStartDate st \<noteq> None \<and> selectedEndDate st \<noteq> None))"

text \<open>The placeholder path of \<open>update\<close>, as a predicate on its input.\<close>

definition placeholder_path :: "js_env \<Rightarrow> update_options \<Rightarrow> bool" where
  "placeholder_path env options =
     (max 0 (viewport_width options) < 100 \<or> max 0 (viewport_height options) < 50
      \<or> parseData env (dataViews options) = [])"

subsection \<open>Gap insertion as the specification words it\<close>

text \<open>
  The deltas between consecutive points, the selected middle delta and the insertion
  rule, phrased over positions of the sorted series. \<open>median_positive_delta\<close> is the
  element at position \<open>k div 2\<close> of the \<open>k\<close> positive deltas in ascending order (the
  upper of the two middle elements when \<open>k\<close> is even); \<open>conventional_median\<close> is the
  usual median, the mean of the two middle elements when \<open>k\<close> is even.
\<close>

definition positive_deltas :: "TimeDataPoint list \<Rightarrow> int list" where
  "positive_deltas ps =
     filter (\<lambda>d. d > 0) (map (\<lambda>i. timestamp (ps ! Suc i) - timestamp (ps ! i)) [0..<length ps - 1])"

definition median_positive_delta :: "TimeDataPoint list \<Rightarrow> int" where
  "median_positive_delta ps =
     (let ds = sort (positive_deltas ps) in if ds = [] then 0 else ds ! (length ds div 2))"

definition conventional_median :: "int list \<Rightarrow> rat" where
  "conventional_median ds =
     (let xs = sort ds; n = length xs
      in if n = 0 then 0
         else if even n then (of_int (xs ! (n div 2 - 1)) + of_int (xs ! (n div 2))) / 2
         else of_int (xs ! (n div 2)))"

definition gaps_spec :: "int \<Rightarrow> string \<Rightarrow> TimeDataPoint list \<Rightarrow> TimeDataPoint list" where
  "gaps_spec m s ps =
     hd ps # concat (map (\<lambda>i. (if timestamp (ps ! Suc i) - timestamp (ps ! i) > 3 * m
                                then [gap_point s (timestamp (ps ! i) + m)] else [])
                               @ [ps ! Suc i]) [0..<length ps - 1])"

subsection \<open>Model construction as the specification words it\<close>

text \<open>
  The required timestamp column (the first category column with the timestamp role) and
  the condition that a value cell is missing or fails numeric coercion.
\<close>

definition timestamp_column :: "dataview option \<Rightarrow> category_column option" where
  "timestamp_column dv =
     (case dv of None \<Rightarrow> None | Some dataView \<Rightarrow>
     (case categorical dataView of None \<Rightarrow> None | Some cat \<Rightarrow>
     (case categories cat of None \<Rightarrow> None | Some cats \<Rightarrow>
        find (\<lambda>c. has_role ''timestamp'' (c_roles c)) cats)))"

definition value_cell_unusable :: "js_env \<Rightarrow> value_column option \<Rightarrow> nat \<Rightarrow> bool" where
  "value_cell_unusable env vm i =
     (case vm of
        None \<Rightarrow> True
      | Some m \<Rightarrow> cell_at (v_values m) i = PNull \<or> cell_at (v_values m) i = PStr []
                  \<or> to_number env (cell_at (v_values m) i) = None)"

subsection \<open>Concrete inputs\<close>

definition plain_point :: "string \<Rightarrow> nat \<Rightarrow> int \<Rightarrow> rat option \<Rightarrow> TimeDataPoint" where
  "plain_point s i t v =
     \<lparr> timestamp = t, pvalue = v, series = s, anomaly = None, timelineMarker = None,
       selectionId = CategoryId i, lineColor = None, areaColor = None, index = int i \<rparr>"

definition gap_example :: "TimeDataPoint list" where
  "gap_example = map (\<lambda>(i, t). plain_point ''default'' i t (Some 1)) [(0, 0), (1, 1), (2, 2), (3, 4), (4, 9)]"

definition gap_example2 :: "TimeDataPoint list" where
  "gap_example2 = map (\<lambda>(i, t). plain_point ''default'' i t (Some 1)) [(0, 0), (1, 1), (2, 2), (3, 3), (4, 10)]"

text \<open>
  An environment whose \<open>toISOString\<close> and local-time getters are those of a UTC host for
  instants within the first minute of 1970; no string parses as a date or a number.
\<close>

definition example_env :: js_env where
  "example_env =
     \<lparr> date_parse = (\<lambda>s. None),
       str_to_number = (\<lambda>s. None),
       parse_float = (\<lambda>s. if s = ''0'' then Some 0 else None),
       to_str = (\<lambda>v. case v of PStr s \<Rightarrow> s | _ \<Rightarrow> ''value''),
       toISOString = (\<lambda>t. ''1970-01-01T00:00:'' @ pad (nat (t div 1000) mod 60) 2 @ ''.''
                             @ pad (nat t mod 1000) 3 @ ''Z''),
       local_fields = (\<lambda>t. \<lparr> fullYear = 1970, month0 = 0, dayOfMonth = 1, hours = 0, minutes = 0,
                               seconds = nat (t div 1000) mod 60, milliseconds = nat t mod 1000 \<rparr>) \<rparr>"

definition view_of :: "prim list \<Rightarrow> prim list \<Rightarrow> dataview option" where
  "view_of ts vs =
     Some \<lparr> categorical = Some
       \<lparr> categories = Some [\<lparr> c_roles = [''timestamp''], c_values = ts, c_queryName = ''Readings.Timestamp'',
                               c_displayName = ''Timestamp'', c_objects = [] \<rparr>],
         grouped_values = Some [\<lparr> g_name = PNull,
                                  g_values = [\<lparr> v_roles = [''values''], v_values = vs \<rparr>] \<rparr>] \<rparr> \<rparr>"

definition example_view :: "dataview option" where
  "example_view =
     view_of [PNum 0, PNum 1000, PStr ''bad'', PNum 2000, PNum 3000, PNum 10000]
             [PNum 10, PNum 12, PNum 5, PStr ''x'', PNull, PNum 9]"

definition duplicate_view :: "dataview option" where
  "duplicate_view = view_of [PNum 5, PNum 5] [PNum 1, PNum 2]"

definition no_timestamp_view :: "dataview option" where
  "no_timestamp_view =
     Some \<lparr> categorical = Some
       \<lparr> categories = Some [\<lparr> c_roles = [''series''], c_values = [PStr ''a''], c_queryName = ''T.S'',
                               c_displayName = ''S'', c_objects = [] \<rparr>],
         grouped_values = Some [] \<rparr> \<rparr>"

definition default_settings :: settings where
  "default_settings =
     \<lparr> yAxisMin = Some [], yAxisMax = Some [], delimiter = Some ''|'', useISOFormat = Some True,
       outputFormat = Some ''yyyy-MM-dd HH:mm:ss'', dateFormat = Some ''MMM d, yyyy HH:mm:ss'',
       prefix = Some ''Effective Range'', marginLeft = Some 0, marginRight = Some 0 \<rparr>"

definition plain_series :: "string \<Rightarrow> TimeDataPoint list" where
  "plain_series s = [plain_point s 0 0 (Some 5), plain_point s 1 1000 (Some 10)]"

definition zero_max_series :: "TimeDataPoint list" where
  "zero_max_series =
     [plain_point ''default'' 0 0 (Some (- 5)), plain_point ''default'' 1 1000 (Some 0)]"

definition two_series :: "TimeDataPoint list" where
  "two_series =
     [plain_point ''A'' 0 0 (Some 0), plain_point ''B'' 0 0 (Some 1000),
      plain_point ''A'' 1 1000 (Some 10), plain_point ''B'' 1 1000 (Some 2000)]"

text \<open>
  A session: the first render of \<open>example_view\<close> in a 400 by 200 viewport, a user drag
  to the pixels 80 to 120 with its release, and then updates that resize the viewport, shrink
  it below the minimum while the data change, or change the data.
\<close>

definition first_options :: update_options where
  "first_options =
     \<lparr> dataViews = example_view, settingsModel = default_settings,
       viewport_width = 400, viewport_height = 200 \<rparr>"

definition rendered_state :: visual where
  "rendered_state = the (update example_env first_options initial_visual)"

definition brushed_state :: visual where
  "brushed_state =
     onBrushEnd example_env (onBrush rendered_state (Some (80, 120))) (Some (80, 120))"

definition resized_options :: update_options where
  "resized_options = first_options\<lparr>viewport_width := 800\<rparr>"

definition tiny_changed_options :: update_options where
  "tiny_changed_options =
     \<lparr> dataViews = duplicate_view, settingsModel = default_settings,
       viewport_width = 50, viewport_height = 50 \<rparr>"


definition changed_options :: update_options where
  "changed_options = tiny_changed_options\<lparr>viewport_width := 400, viewport_height := 200\<rparr>"



section \<open>Verification\<close>

subsection \<open>Gap detection\<close>

lemma upt_Suc_shift: "[0..<Suc n] = 0 # map Suc [0..<n]"
  by (simp add: upt_conv_Cons map_Suc_upt del: upt_Suc)

lemma diffs_loop_deltas:
  "diffs_loop p rest =
     filter (\<lambda>d. d > 0) (map (\<lambda>i. timestamp ((p # rest) ! Suc i) - timestamp ((p # rest) ! i)) [0..<length rest])"
proof (induction rest arbitrary: p)
  case Nil
  show ?case by simp
next
  case (Cons c rest)
  have "[0..<length (c # rest)] = 0 # map Suc [0..<length rest]"
    using upt_Suc_shift [of "length rest"] by simp
  then show ?case
    by (simp add: Cons.IH Let_def comp_def del: upt_Suc cong: if_cong)
qed

lemma medianDiff_spec: "ps \<noteq> [] \<Longrightarrow> medianDiff ps = median_positive_delta ps"
proof -
  assume "ps \<noteq> []"
  then obtain p rest where ps: "ps = p # rest" by (cases ps) auto
  show ?thesis
    unfolding medianDiff_def median_positive_delta_def positive_deltas_def ps
    using diffs_loop_deltas [of p rest] by (simp add: Let_def)
qed

lemma gap_loop_spec:
  "0 < m \<Longrightarrow> gap_loop m s p rest =
     concat (map (\<lambda>i. (if timestamp ((p # rest) ! Suc i) - timestamp ((p # rest) ! i) > 3 * m
                        then [gap_point s (timestamp ((p # rest) ! i) + m)] else [])
                       @ [(p # rest) ! Suc i]) [0..<length rest])"
proof (induction rest arbitrary: p)
  case Nil
  show ?case by simp
next
  case (Cons c rest)
  have "[0..<length (c # rest)] = 0 # map Suc [0..<length rest]"
    using upt_Suc_shift [of "length rest"] by simp
  then show ?case using Cons.prems
    by (simp add: Cons.IH [OF Cons.prems] Let_def comp_def gapThreshold_def mult.commute
             del: upt_Suc cong: if_cong)
qed

lemma gap_loop_no_threshold: "m \<le> 0 \<Longrightarrow> gap_loop m s p rest = rest"
  by (induction rest arbitrary: p) (simp_all add: gapThreshold_def Let_def)

lemma diffs_loop_positive: "d \<in> set (diffs_loop p rest) \<Longrightarrow> 0 < d"
  by (induction rest arbitrary: p) (auto simp: Let_def split: if_splits)

lemma medianDiff_nonneg: "0 \<le> medianDiff ps"
proof -
  let ?ds = "sort (diffs_loop (hd ps) (tl ps))"
  show ?thesis
  proof (cases "?ds = []")
    case True
    then show ?thesis by (simp add: medianDiff_def Let_def)
  next
    case False
    then have "0 < length ?ds" by (metis length_greater_0_conv)
    then have "length ?ds div 2 < length ?ds" by (simp del: length_sort)
    then have "?ds ! (length ?ds div 2) \<in> set ?ds" by (rule nth_mem)
    then have "0 < ?ds ! (length ?ds div 2)" using diffs_loop_positive by simp
    then show ?thesis using False by (simp add: medianDiff_def Let_def)
  qed
qed

text \<open>
  C4 (as amended). A series is first sorted by timestamp. With \<open>m\<close> the element at
  position \<open>k div 2\<close> of its \<open>k\<close> ascending positive deltas (the upper median), a series of
  at least two points with \<open>m > 0\<close> becomes its first point followed, for every consecutive
  pair, by one synthetic point at the earlier timestamp plus \<open>m\<close> exactly when the pair's
  delta exceeds \<open>3 * m\<close>, and then the later point: one synthetic point per exceeding pair and
  none anywhere else. A series of fewer than two points, or with \<open>m = 0\<close>, is returned sorted
  with nothing inserted.
\<close>

theorem gap_insertion:
  "process_series s pts =
     (let ps = sort_key timestamp pts; m = median_positive_delta ps
      in if length ps < 2 \<or> m = 0 then ps else gaps_spec m s ps)"
proof -
  let ?ps = "sort_key timestamp pts"
  show ?thesis
  proof (cases "length ?ps < 2")
    case True
    then show ?thesis by (simp add: process_series_def Let_def)
  next
    case False
    then obtain p rest where ps: "?ps = p # rest" by (cases ?ps) auto
    have ne: "?ps \<noteq> []" using ps by simp
    have m: "medianDiff ?ps = median_positive_delta ?ps" by (rule medianDiff_spec [OF ne])
    have nonneg: "0 \<le> median_positive_delta ?ps" using medianDiff_nonneg [of ?ps] m by simp
    show ?thesis
    proof (cases "median_positive_delta ?ps = 0")
      case True
      then show ?thesis using False ps m gap_loop_no_threshold [of 0 s p rest]
        by (simp add: process_series_def Let_def)
    next
      case mpos: False
      then have "0 < median_positive_delta ?ps" using nonneg by simp
      from gap_loop_spec [OF this, of s p rest] show ?thesis using False ps m mpos
        by (simp add: process_series_def Let_def gaps_spec_def cong: if_cong)
    qed
  qed
qed

lemma gap_example2_sorted: "sort_key timestamp gap_example2 = gap_example2"
  by (simp add: gap_example2_def plain_point_def)

theorem gap_insertion_witness:
  "process_series ''default'' gap_example2 =
     take 4 gap_example2 @ [gap_point ''default'' 4, gap_example2 ! 4]"
  apply (subst gap_insertion)
  apply (simp add: gap_example2_sorted)
  apply (simp add: gap_example2_def plain_point_def median_positive_delta_def positive_deltas_def
                   gaps_spec_def Let_def upt_conv_Cons)
  done

lemma gap_example_sorted: "sort_key timestamp gap_example = gap_example"
  by (simp add: gap_example_def plain_point_def)

text \<open>
  C4 as the claim words it, with the usual median, fails on the series with timestamps
  0, 1, 2, 4, 9: the positive deltas 1, 1, 2, 5 have median 3/2, the last pair's delta 5
  exceeds 3 * 3/2, and yet the code (which takes the delta 2 at position 2, threshold 6)
  inserts no synthetic point.
\<close>

theorem gap_insertion_counterexample:
  "conventional_median (positive_deltas gap_example) = 3 / 2
   \<and> 3 * conventional_median (positive_deltas gap_example)
       < of_int (timestamp (gap_example ! 4) - timestamp (gap_example ! 3))
   \<and> process_series ''default'' gap_example = gap_example"
  apply (simp add: process_series_def Let_def gap_example_sorted)
  apply (simp add: gap_example_def plain_point_def conventional_median_def positive_deltas_def
                   medianDiff_def gapThreshold_def Let_def upt_conv_Cons)
  done

subsection \<open>Series keep their points and their order\<close>

lemma first_keys_set: "set (first_keys ks) = set ks"
  by (induction ks) auto

lemma first_keys_distinct: "distinct (first_keys ks)"
  by (induction ks) (auto simp: first_keys_set)

lemma series_key_nonempty: "series_key d \<noteq> []"
  by (simp add: series_key_def)

lemma gap_point_key: "s \<noteq> [] \<Longrightarrow> series_key (gap_point s t) = s"
  by (simp add: series_key_def gap_point_def)

lemma gap_loop_elems:
  "x \<in> set (gap_loop m s p rest) \<Longrightarrow> x \<in> set rest \<or> (\<exists>t. x = gap_point s t)"
  by (induction rest arbitrary: p) (auto simp: Let_def split: if_splits)

lemma gap_loop_keeps: "set rest \<subseteq> set (gap_loop m s p rest)"
  by (induction rest arbitrary: p) (auto simp: Let_def)

lemma process_series_elems:
  assumes "x \<in> set (process_series s pts)"
  shows "x \<in> set pts \<or> (\<exists>t. x = gap_point s t)"
proof -
  let ?ps = "sort_key timestamp pts"
  show ?thesis
  proof (cases "length ?ps < 2")
    case True
    with assms show ?thesis by (simp add: process_series_def Let_def)
  next
    case False
    then obtain p rest where ps: "?ps = p # rest" by (cases ?ps) auto
    from assms False ps have "x = p \<or> x \<in> set (gap_loop (medianDiff ?ps) s p rest)"
      by (simp add: process_series_def Let_def)
    then have "x \<in> set ?ps \<or> (\<exists>t. x = gap_point s t)"
      using gap_loop_elems [of x "medianDiff ?ps" s p rest] ps by auto
    then show ?thesis by simp
  qed
qed

lemma process_series_keeps: "set pts \<subseteq> set (process_series s pts)"
proof -
  let ?ps = "sort_key timestamp pts"
  show ?thesis
  proof (cases "length ?ps < 2")
    case True
    then have "process_series s pts = ?ps" by (simp add: process_series_def Let_def)
    then show ?thesis by simp
  next
    case False
    then obtain p rest where ps: "?ps = p # rest" by (cases ?ps) auto
    have "set ?ps \<subseteq> set (process_series s pts)"
      using False ps gap_loop_keeps [of rest "medianDiff ?ps" s p]
      by (auto simp: process_series_def Let_def)
    then show ?thesis by simp
  qed
qed

lemma gap_loop_sorted:
  "sorted (map timestamp (p # rest)) \<Longrightarrow> sorted (map timestamp (p # gap_loop m s p rest))"
proof (induction rest arbitrary: p)
  case Nil
  show ?case by simp
next
  case (Cons c rest)
  from Cons.prems have pc: "timestamp p \<le> timestamp c"
    and srt: "sorted (map timestamp (c # rest))" by simp_all
  from Cons.IH [OF srt] have ih: "sorted (map timestamp (c # gap_loop m s c rest))" .
  then have ge: "\<forall>x \<in> set (gap_loop m s c rest). timestamp c \<le> timestamp x" by simp
  show ?case
  proof (cases "gapThreshold m > 0 \<and> timestamp c - timestamp p > gapThreshold m")
    case True
    then have m: "0 < m" "timestamp p + m < timestamp c"
      by (auto simp: gapThreshold_def split: if_splits)
    have eq: "gap_loop m s p (c # rest) = gap_point s (timestamp p + m) # c # gap_loop m s c rest"
      using True by (simp add: Let_def)
    have g: "timestamp (gap_point s (timestamp p + m)) = timestamp p + m"
      by (simp add: gap_point_def)
    have "\<forall>x \<in> set (gap_loop m s c rest). timestamp p + m \<le> timestamp x"
      using ge m by fastforce
    moreover have "\<forall>x \<in> set (gap_loop m s c rest). timestamp p \<le> timestamp x"
      using ge pc by fastforce
    ultimately show ?thesis unfolding eq using ih pc m by (simp add: g)
  next
    case False
    then have eq: "gap_loop m s p (c # rest) = c # gap_loop m s c rest"
      by (simp add: Let_def)
    have "\<forall>x \<in> set (gap_loop m s c rest). timestamp p \<le> timestamp x"
      using ge pc by fastforce
    then show ?thesis unfolding eq using ih pc by simp
  qed
qed

lemma process_series_sorted: "sorted (map timestamp (process_series s pts))"
proof -
  let ?ps = "sort_key timestamp pts"
  have srt: "sorted (map timestamp ?ps)" by (rule sorted_sort_key)
  show ?thesis
  proof (cases "length ?ps < 2")
    case True
    then show ?thesis using srt by (simp add: process_series_def Let_def)
  next
    case False
    then obtain p rest where ps: "?ps = p # rest" by (cases ?ps) auto
    from srt ps gap_loop_sorted [of p rest "medianDiff ?ps" s]
    show ?thesis using False by (simp add: process_series_def Let_def)
  qed
qed

lemma gap_loop_strict:
  "sorted_wrt (<) (map timestamp (p # rest)) \<Longrightarrow>
   sorted_wrt (<) (map timestamp (p # gap_loop m s p rest))"
proof (induction rest arbitrary: p)
  case Nil
  show ?case by simp
next
  case (Cons c rest)
  from Cons.prems have pc: "timestamp p < timestamp c"
    and srt: "sorted_wrt (<) (map timestamp (c # rest))" by simp_all
  from Cons.IH [OF srt] have ih: "sorted_wrt (<) (map timestamp (c # gap_loop m s c rest))" .
  then have ge: "\<forall>x \<in> set (gap_loop m s c rest). timestamp c < timestamp x" by simp
  show ?case
  proof (cases "gapThreshold m > 0 \<and> timestamp c - timestamp p > gapThreshold m")
    case True
    then have m: "0 < m" "timestamp p + m < timestamp c"
      by (auto simp: gapThreshold_def split: if_splits)
    have eq: "gap_loop m s p (c # rest) = gap_point s (timestamp p + m) # c # gap_loop m s c rest"
      using True by (simp add: Let_def)
    have g: "timestamp (gap_point s (timestamp p + m)) = timestamp p + m"
      by (simp add: gap_point_def)
    have "\<forall>x \<in> set (gap_loop m s c rest). timestamp p + m < timestamp x"
      using ge m by fastforce
    moreover have "\<forall>x \<in> set (gap_loop m s c rest). timestamp p < timestamp x"
      using ge pc by fastforce
    ultimately show ?thesis unfolding eq using ih pc m by (simp add: g)
  next
    case False
    then have eq: "gap_loop m s p (c # rest) = c # gap_loop m s c rest"
      by (simp add: Let_def)
    have "\<forall>x \<in> set (gap_loop m s c rest). timestamp p < timestamp x"
      using ge pc by fastforce
    then show ?thesis unfolding eq using ih pc by simp
  qed
qed

lemma process_series_strict:
  assumes "distinct (map timestamp pts)"
  shows "sorted_wrt (<) (map timestamp (process_series s pts))"
proof -
  let ?ps = "sort_key timestamp pts"
  have "sorted (map timestamp ?ps)" by (rule sorted_sort_key)
  moreover have "distinct (map timestamp ?ps)"
    using assms by (simp add: distinct_map)
  ultimately have srt: "sorted_wrt (<) (map timestamp ?ps)" by (simp add: strict_sorted_iff)
  show ?thesis
  proof (cases "length ?ps < 2")
    case True
    then show ?thesis using srt by (simp add: process_series_def Let_def)
  next
    case False
    then obtain p rest where ps: "?ps = p # rest" by (cases ?ps) auto
    from srt ps gap_loop_strict [of p rest "medianDiff ?ps" s]
    show ?thesis using False by (simp add: process_series_def Let_def)
  qed
qed

lemma process_series_keys:
  assumes "\<forall>d \<in> set pts. series_key d = s" and "s \<noteq> []" and "x \<in> set (process_series s pts)"
  shows "series_key x = s"
proof -
  from process_series_elems [OF assms(3)]
  consider "x \<in> set pts" | t where "x = gap_point s t" by blast
  then show ?thesis
  proof cases
    case 1
    with assms(1) show ?thesis by blast
  next
    case 2
    then show ?thesis using gap_point_key [OF assms(2)] by simp
  qed
qed

lemma concat_single_key:
  "distinct ks \<Longrightarrow> concat (map (\<lambda>k. if k = s then A else []) ks) = (if s \<in> set ks then A else [])"
  by (induction ks) auto

lemma series_points_process:
  assumes "k \<noteq> []"
  shows "series_points s (process_series k (series_points k ds)) =
         (if k = s then process_series s (series_points s ds) else [])"
proof -
  let ?xs = "process_series k (series_points k ds)"
  have "\<forall>d \<in> set (series_points k ds). series_key d = k"
    by (simp add: series_points_def)
  then have keys: "\<forall>x \<in> set ?xs. series_key x = k"
    using process_series_keys [of "series_points k ds" k] assms by blast
  show ?thesis
  proof (cases "k = s")
    case True
    have "filter (\<lambda>d. series_key d = k) ?xs = ?xs"
      using keys by (simp add: filter_id_conv)
    then show ?thesis using True by (simp add: series_points_def [of s "process_series _ _"])
  next
    case False
    have "filter (\<lambda>d. series_key d = s) ?xs = []"
      using keys False by (simp add: filter_empty_conv)
    then show ?thesis using False by (simp add: series_points_def [of s "process_series _ _"])
  qed
qed

lemma detect_gaps_series:
  "series_points s (detect_gaps ds) = process_series s (series_points s ds)"
proof -
  let ?ks = "first_keys (map series_key ds)"
  let ?A = "process_series s (series_points s ds)"
  have ne: "\<forall>k \<in> set ?ks. k \<noteq> []"
    by (auto simp: first_keys_set series_key_nonempty)
  have "series_points s (detect_gaps ds) =
        sort_key timestamp (series_points s (concat (map (\<lambda>(k, pts). process_series k pts) (seriesMap ds))))"
    by (simp add: detect_gaps_def series_points_def filter_sort)
  also have "series_points s (concat (map (\<lambda>(k, pts). process_series k pts) (seriesMap ds))) =
        concat (map (\<lambda>k. series_points s (process_series k (series_points k ds))) ?ks)"
    by (simp add: seriesMap_def series_points_def filter_concat comp_def)
  also have "\<dots> = concat (map (\<lambda>k. if k = s then ?A else []) ?ks)"
    using ne by (intro arg_cong [where f = concat] map_cong refl) (simp add: series_points_process)
  also have "\<dots> = (if s \<in> set ?ks then ?A else [])"
    by (rule concat_single_key [OF first_keys_distinct])
  also have "\<dots> = ?A"
  proof (cases "s \<in> set ?ks")
    case True then show ?thesis by simp
  next
    case False
    then have "series_points s ds = []"
      by (auto simp: first_keys_set series_points_def filter_empty_conv)
    then show ?thesis using False by (simp add: process_series_def)
  qed
  finally show ?thesis
    using sort_key_id_if_sorted [OF process_series_sorted [of s "series_points s ds"]] by simp
qed

lemma detect_gaps_elems:
  "x \<in> set (detect_gaps ds) \<Longrightarrow> x \<in> set ds \<or> (\<exists>s t. x = gap_point s t)"
proof -
  assume "x \<in> set (detect_gaps ds)"
  then have "x \<in> set (series_points (series_key x) (detect_gaps ds))"
    by (simp add: series_points_def)
  then have "x \<in> set (process_series (series_key x) (series_points (series_key x) ds))"
    by (simp add: detect_gaps_series)
  from process_series_elems [OF this] show ?thesis by (auto simp: series_points_def)
qed

lemma detect_gaps_keeps: "set ds \<subseteq> set (detect_gaps ds)"
proof
  fix x assume "x \<in> set ds"
  then have "x \<in> set (series_points (series_key x) ds)" by (simp add: series_points_def)
  then have "x \<in> set (process_series (series_key x) (series_points (series_key x) ds))"
    using process_series_keeps by blast
  then have "x \<in> set (series_points (series_key x) (detect_gaps ds))"
    by (simp add: detect_gaps_series)
  then show "x \<in> set (detect_gaps ds)" by (simp add: series_points_def)
qed

subsection \<open>Rows and synthetic points of the constructed model\<close>

lemma detect_gaps_Nil: "detect_gaps [] = []"
  by (simp add: detect_gaps_def seriesMap_def)

lemma parseData_detect: "parseData env dv = detect_gaps (parsed_rows env dv)"
  by (simp add: parseData_def parsed_rows_def detect_gaps_Nil split: option.splits prod.splits)

lemma row_point_fields:
  assumes "p \<in> set (row_point env tc gm g i)"
  shows "index p = int i \<and> parseDate env (c_values tc ! i) = Some (timestamp p)
         \<and> series p = seriesName_of env g \<and> pvalue p = coerce_value env (valueMeasure_of g) i"
  using assms by (auto simp: row_point_def split: option.splits)

lemma row_point_emitted:
  assumes "parseDate env (c_values tc ! i) = Some t"
  shows "\<exists>p. row_point env tc gm g i = [p] \<and> index p = int i \<and> timestamp p = t
           \<and> series p = seriesName_of env g \<and> pvalue p = coerce_value env (valueMeasure_of g) i"
  using assms by (simp add: row_point_def)

lemma raw_points_iff:
  "p \<in> set (raw_points env tc groups) \<longleftrightarrow>
     (\<exists>g \<in> set groups. \<exists>i < length (c_values tc).
        p \<in> set (row_point env tc (globalMarkers env (c_values tc) groups) g i))"
  by (fastforce simp: raw_points_def group_points_def)

lemma raw_points_index: "p \<in> set (raw_points env tc groups) \<Longrightarrow> 0 \<le> index p"
  by (auto simp: raw_points_iff dest: row_point_fields)

lemma gap_point_index: "index (gap_point s t) = - 1"
  by (simp add: gap_point_def)

lemma coerce_value_unusable:
  "value_cell_unusable env vm i \<Longrightarrow> coerce_value env vm i = None"
  by (auto simp: value_cell_unusable_def coerce_value_def Let_def split: option.splits)

lemma timestamp_column_resolve:
  "resolve_columns dv = Some (tc, groups) \<Longrightarrow> timestamp_column dv = Some tc"
  by (auto simp: resolve_columns_def timestamp_column_def split: option.splits if_splits)

lemma no_timestamp_column: "timestamp_column dv = None \<Longrightarrow> resolve_columns dv = None"
  by (auto simp: resolve_columns_def timestamp_column_def split: option.splits if_splits)

lemma unparseable_rows_empty:
  assumes "\<forall>c \<in> set (c_values tc). parseDate env c = None"
  shows "raw_points env tc groups = []"
proof -
  have "row_point env tc gm g i = []" if "i < length (c_values tc)" for gm g i
    using assms that by (simp add: row_point_def)
  then show ?thesis by (simp add: raw_points_def group_points_def)
qed

text \<open>
  C8. \<open>parseData\<close> is a total function: the source has no \<^verbatim>\<open>throw\<close>, its one
  \<^verbatim>\<open>try\<close> block turns a failure into \<^verbatim>\<open>null\<close>, and every read of a possibly missing
  column or cell is guarded, so the model needs no error result. Without a timestamp column,
  or with one whose cells all fail to parse, the model is empty. With the columns resolved,
  a row whose timestamp cell does not parse contributes no point at all, while a row whose
  timestamp parses contributes, for every value group, a point at that instant with the row's
  index, whose value is the coerced cell and is absent whenever the value cell is missing or
  fails numeric coercion.
\<close>

theorem model_construction_total:
  "(timestamp_column dv = None \<longrightarrow> parseData env dv = [])
   \<and> (\<forall>tc. timestamp_column dv = Some tc \<longrightarrow> (\<forall>c \<in> set (c_values tc). parseDate env c = None)
          \<longrightarrow> parseData env dv = [])
   \<and> (\<forall>tc groups. resolve_columns dv = Some (tc, groups) \<longrightarrow>
        (\<forall>i < length (c_values tc). parseDate env (c_values tc ! i) = None \<longrightarrow>
           (\<forall>p \<in> set (parseData env dv). index p \<noteq> int i))
        \<and> (\<forall>g \<in> set groups. \<forall>i < length (c_values tc). \<forall>t.
             parseDate env (c_values tc ! i) = Some t \<longrightarrow>
             (\<exists>p \<in> set (parseData env dv).
                index p = int i \<and> timestamp p = t \<and> series p = seriesName_of env g
                \<and> pvalue p = coerce_value env (valueMeasure_of g) i
                \<and> (value_cell_unusable env (valueMeasure_of g) i \<longrightarrow> pvalue p = None))))"
proof (intro conjI allI impI ballI)
  assume "timestamp_column dv = None"
  then show "parseData env dv = []"
    by (simp add: parseData_def no_timestamp_column)
next
  fix tc
  assume tc: "timestamp_column dv = Some tc" and bad: "\<forall>c \<in> set (c_values tc). parseDate env c = None"
  show "parseData env dv = []"
  proof (cases "resolve_columns dv")
    case None
    then show ?thesis by (simp add: parseData_def)
  next
    case (Some r)
    obtain tc' groups where r: "r = (tc', groups)" by (cases r)
    with Some tc timestamp_column_resolve [of dv tc' groups] have "tc' = tc" by simp
    with Some r bad show ?thesis
      by (simp add: parseData_def unparseable_rows_empty detect_gaps_Nil)
  qed
next
  fix tc groups i
  assume r: "resolve_columns dv = Some (tc, groups)" and i: "i < length (c_values tc)"
    and none: "parseDate env (c_values tc ! i) = None"
  fix p assume "p \<in> set (parseData env dv)"
  show "index p \<noteq> int i"
  proof -
    from \<open>p \<in> set (parseData env dv)\<close> have "p \<in> set (detect_gaps (raw_points env tc groups))" using r by (simp add: parseData_def)
    from detect_gaps_elems [OF this] show ?thesis
    proof
      assume "p \<in> set (raw_points env tc groups)"
      then obtain g j where "p \<in> set (row_point env tc (globalMarkers env (c_values tc) groups) g j)"
        by (auto simp: raw_points_iff)
      from row_point_fields [OF this] none show ?thesis by auto
    next
      assume "\<exists>s t. p = gap_point s t"
      then show ?thesis by (auto simp: gap_point_index)
    qed
  qed
next
  fix tc groups g i t
  assume r: "resolve_columns dv = Some (tc, groups)" and g: "g \<in> set groups"
    and i: "i < length (c_values tc)" and t: "parseDate env (c_values tc ! i) = Some t"
  from row_point_emitted [OF t, of "globalMarkers env (c_values tc) groups" g]
  obtain p where p: "row_point env tc (globalMarkers env (c_values tc) groups) g i = [p]"
    and f: "index p = int i" "timestamp p = t" "series p = seriesName_of env g"
      "pvalue p = coerce_value env (valueMeasure_of g) i" by blast
  from p g i have "p \<in> set (raw_points env tc groups)"
    by (auto simp: raw_points_iff intro!: bexI [of _ g] exI [of _ i])
  then have "p \<in> set (parseData env dv)"
    using r detect_gaps_keeps [of "raw_points env tc groups"] by (auto simp: parseData_def)
  then show "\<exists>p \<in> set (parseData env dv).
                index p = int i \<and> timestamp p = t \<and> series p = seriesName_of env g
                \<and> pvalue p = coerce_value env (valueMeasure_of g) i
                \<and> (value_cell_unusable env (valueMeasure_of g) i \<longrightarrow> pvalue p = None)"
    using f coerce_value_unusable [of env "valueMeasure_of g" i] by (intro bexI [of _ p]) auto
qed

text \<open>Evaluating the model on the concrete inputs.\<close>

lemmas parse_defs = resolve_columns_def raw_points_def group_points_def row_point_def
  parseDate_def time_clip_def trunc_rat_def coerce_value_def coerce_anomaly_def cell_at_def to_number_def
  row_objects_def seriesName_of_def truthy_def globalMarkers_def group_markers_def has_role_def
  valueMeasure_of_def anomalyMeasure_of_def view_of_def example_env_def

lemmas gap_defs = detect_gaps_def seriesMap_def series_points_def series_key_def process_series_def
  medianDiff_def gapThreshold_def

lemma example_model:
  "parseData example_env example_view =
     [plain_point ''default'' 0 0 (Some 10), plain_point ''default'' 1 1000 (Some 12),
      plain_point ''default'' 3 2000 None, plain_point ''default'' 4 3000 None,
      gap_point ''default'' 4000, plain_point ''default'' 5 10000 (Some 9)]"
  by (simp add: parseData_def example_view_def parse_defs gap_defs plain_point_def gap_point_def
        upt_conv_Cons Let_def)

lemma duplicate_model:
  "parseData example_env duplicate_view =
     [plain_point ''default'' 0 5 (Some 1), plain_point ''default'' 1 5 (Some 2)]"
  by (simp add: parseData_def duplicate_view_def parse_defs gap_defs plain_point_def gap_point_def
        upt_conv_Cons Let_def)

lemma example_resolved:
  "resolve_columns example_view =
     Some (\<lparr> c_roles = [''timestamp''],
             c_values = [PNum 0, PNum 1000, PStr ''bad'', PNum 2000, PNum 3000, PNum 10000],
             c_queryName = ''Readings.Timestamp'', c_displayName = ''Timestamp'', c_objects = [] \<rparr>,
           [\<lparr> g_name = PNull,
              g_values = [\<lparr> v_roles = [''values''],
                            v_values = [PNum 10, PNum 12, PNum 5, PStr ''x'', PNull, PNum 9] \<rparr>] \<rparr>])"
  by (simp add: example_view_def view_of_def resolve_columns_def has_role_def)

theorem model_construction_total_witness:
  "parseData example_env no_timestamp_view = []
   \<and> \<not> (\<exists>p \<in> set (parseData example_env example_view). index p = 2)
   \<and> (\<exists>p \<in> set (parseData example_env example_view).
         index p = 3 \<and> timestamp p = 2000 \<and> series p = ''default'' \<and> pvalue p = None)"
proof -
  let ?tc = "\<lparr> c_roles = [''timestamp''],
             c_values = [PNum 0, PNum 1000, PStr ''bad'', PNum 2000, PNum 3000, PNum 10000],
             c_queryName = ''Readings.Timestamp'', c_displayName = ''Timestamp'', c_objects = [] \<rparr>"
  let ?g = "\<lparr> g_name = PNull,
              g_values = [\<lparr> v_roles = [''values''],
                            v_values = [PNum 10, PNum 12, PNum 5, PStr ''x'', PNull, PNum 9] \<rparr>] \<rparr>"
  have a: "timestamp_column no_timestamp_view = None"
    by (simp add: timestamp_column_def no_timestamp_view_def has_role_def)
  have b: "parseDate example_env (c_values ?tc ! 2) = None"
    by (simp add: parseDate_def example_env_def)
  have c: "parseDate example_env (c_values ?tc ! 3) = Some 2000"
    by (simp add: parseDate_def time_clip_def trunc_rat_def)
  have d: "value_cell_unusable example_env (valueMeasure_of ?g) 3"
    by (simp add: value_cell_unusable_def valueMeasure_of_def has_role_def cell_at_def
          to_number_def example_env_def)
  have e: "seriesName_of example_env ?g = ''default''"
    by (simp add: seriesName_of_def truthy_def)
  note m1 = model_construction_total [of no_timestamp_view example_env]
  note m2 = model_construction_total [of example_view example_env, THEN conjunct2, THEN conjunct2,
      THEN spec, THEN spec, THEN mp, OF example_resolved]
  from m1 a have 1: "parseData example_env no_timestamp_view = []" by blast
  have "\<forall>p \<in> set (parseData example_env example_view). index p \<noteq> int 2"
    using m2 [THEN conjunct1, THEN spec, of 2] b by simp
  then have 2: "\<not> (\<exists>p \<in> set (parseData example_env example_view). index p = 2)" by auto
  have g: "?g \<in> set [?g]" by simp
  have "\<exists>p \<in> set (parseData example_env example_view).
          index p = int 3 \<and> timestamp p = 2000 \<and> series p = seriesName_of example_env ?g
          \<and> pvalue p = coerce_value example_env (valueMeasure_of ?g) 3
          \<and> (value_cell_unusable example_env (valueMeasure_of ?g) 3 \<longrightarrow> pvalue p = None)"
    using m2 [THEN conjunct2, THEN bspec, OF g, THEN spec, of 3, THEN mp, THEN spec, of 2000, THEN mp] c
    by simp
  then have 3: "\<exists>p \<in> set (parseData example_env example_view).
         index p = 3 \<and> timestamp p = 2000 \<and> series p = ''default'' \<and> pvalue p = None"
    using d e by auto
  from 1 2 3 show ?thesis by blast
qed

text \<open>
  C5 (as amended). After model construction the points of every series are in
  non-decreasing timestamp order, and in strictly increasing order whenever the rows of that
  series, before gap insertion, have pairwise distinct timestamps. Rows of one series that
  share an instant are kept, next to each other.
\<close>

theorem series_time_order:
  "sorted (map timestamp (series_points s (parseData env dv)))
   \<and> (distinct (map timestamp (series_points s (parsed_rows env dv)))
        \<longrightarrow> sorted_wrt (<) (map timestamp (series_points s (parseData env dv))))"
  by (simp add: parseData_detect detect_gaps_series process_series_sorted process_series_strict)

lemma example_parsed_rows:
  "parsed_rows example_env example_view =
     [plain_point ''default'' 0 0 (Some 10), plain_point ''default'' 1 1000 (Some 12),
      plain_point ''default'' 3 2000 None, plain_point ''default'' 4 3000 None,
      plain_point ''default'' 5 10000 (Some 9)]"
  by (simp add: parsed_rows_def example_view_def parse_defs plain_point_def upt_conv_Cons)

theorem series_time_order_witness:
  "sorted_wrt (<) (map timestamp (series_points ''default'' (parseData example_env example_view)))"
proof -
  have "distinct (map timestamp (series_points ''default'' (parsed_rows example_env example_view)))"
    by (simp add: example_parsed_rows series_points_def series_key_def plain_point_def)
  with series_time_order [of "''default''" example_env example_view] show ?thesis by blast
qed

text \<open>
  C5 as the claim words it fails on two rows with the same instant 5 in one series: both
  are kept, with equal timestamps.
\<close>

theorem series_time_order_counterexample:
  "\<not> sorted_wrt (<) (map timestamp (series_points ''default'' (parseData example_env duplicate_view)))"
  by (simp add: duplicate_model series_points_def series_key_def plain_point_def)

lemma update_values: "snd ` set (AList.update k v al) \<subseteq> insert v (snd ` set al)"
  by (induction al) auto

lemma uniqueMarkers_fold:
  "snd ` set (fold (\<lambda>d um. if timelineMarker d \<noteq> None then AList.update (timestamp d) d um else um) ds um0)
     \<subseteq> snd ` set um0 \<union> {d \<in> set ds. timelineMarker d \<noteq> None}"
proof (induction ds arbitrary: um0)
  case Nil
  show ?case by simp
next
  case (Cons d ds)
  show ?case
  proof (cases "timelineMarker d \<noteq> None")
    case True
    have "snd ` set (AList.update (timestamp d) d um0) \<subseteq> insert d (snd ` set um0)"
      by (rule update_values)
    with Cons.IH [of "AList.update (timestamp d) d um0"] True show ?thesis by auto
  next
    case False
    with Cons.IH [of um0] show ?thesis by auto
  qed
qed

lemma timelinePoints_marked:
  "p \<in> set (timelinePoints ds) \<Longrightarrow> p \<in> set ds \<and> timelineMarker p \<noteq> None"
  using uniqueMarkers_fold [of ds "[]"] by (auto simp: timelinePoints_def uniqueMarkers_def)

lemma parseData_synthetic:
  assumes "p \<in> set (parseData env dv)"
  shows "(index p = - 1) = (\<exists>s t. p = gap_point s t)"
proof
  assume idx: "index p = - 1"
  from assms have "p \<in> set (detect_gaps (parsed_rows env dv))" by (simp add: parseData_detect)
  from detect_gaps_elems [OF this] show "\<exists>s t. p = gap_point s t"
  proof
    assume "p \<in> set (parsed_rows env dv)"
    then have "0 \<le> index p"
      by (auto simp: parsed_rows_def raw_points_index split: option.splits)
    with idx show ?thesis by simp
  qed
next
  assume "\<exists>s t. p = gap_point s t"
  then show "index p = - 1" by (auto simp: gap_point_index)
qed

text \<open>
  C9. Every synthetic gap point has an absent value, no anomaly, no timeline marker and
  the index -1; in a constructed model the points with index -1 are exactly the synthetic
  ones; and neither the anomaly overlay nor the timeline-marker overlay of \<open>renderChart\<close>
  ever contains a point with index -1.
\<close>

theorem synthetic_points_inert:
  "(\<forall>s t. pvalue (gap_point s t) = None \<and> anomaly (gap_point s t) = None
          \<and> timelineMarker (gap_point s t) = None \<and> index (gap_point s t) = - 1)
   \<and> (\<forall>p \<in> set (parseData env dv). (index p = - 1) = (\<exists>s t. p = gap_point s t))
   \<and> (\<forall>p \<in> set (anomalyPoints (parseData env dv)). index p \<noteq> - 1)
   \<and> (\<forall>p \<in> set (timelinePoints (parseData env dv)). index p \<noteq> - 1)"
proof (intro conjI allI ballI)
  fix p assume "p \<in> set (parseData env dv)"
  then show "(index p = - 1) = (\<exists>s t. p = gap_point s t)" by (rule parseData_synthetic)
next
  fix p assume "p \<in> set (anomalyPoints (parseData env dv))"
  then have p: "p \<in> set (parseData env dv)" and a: "anomaly p \<noteq> None"
    by (simp_all add: anomalyPoints_def)
  show "index p \<noteq> - 1"
  proof
    assume "index p = - 1"
    with parseData_synthetic [OF p] obtain s t where "p = gap_point s t" by blast
    with a show False by (simp add: gap_point_def)
  qed
next
  fix p assume "p \<in> set (timelinePoints (parseData env dv))"
  from timelinePoints_marked [OF this]
  have p: "p \<in> set (parseData env dv)" and a: "timelineMarker p \<noteq> None" by simp_all
  show "index p \<noteq> - 1"
  proof
    assume "index p = - 1"
    with parseData_synthetic [OF p] obtain s t where "p = gap_point s t" by blast
    with a show False by (simp add: gap_point_def)
  qed
qed (simp_all add: gap_point_def)

theorem synthetic_points_inert_witness:
  "gap_point ''default'' 4000 \<in> set (parseData example_env example_view)
   \<and> index (gap_point ''default'' 4000) = - 1
   \<and> gap_point ''default'' 4000 \<notin> set (anomalyPoints (parseData example_env example_view))
   \<and> gap_point ''default'' 4000 \<notin> set (timelinePoints (parseData example_env example_view))"
proof -
  note t = synthetic_points_inert [of example_env example_view]
  have m: "gap_point ''default'' 4000 \<in> set (parseData example_env example_view)"
    by (simp add: example_model)
  from t have i: "index (gap_point ''default'' 4000) = - 1" by blast
  from t i have "gap_point ''default'' 4000 \<notin> set (anomalyPoints (parseData example_env example_view))"
    by blast
  moreover from t i
  have "gap_point ''default'' 4000 \<notin> set (timelinePoints (parseData example_env example_view))"
    by blast
  ultimately show ?thesis using m i by simp
qed

subsection \<open>Value scales\<close>

lemmas scale_defs = yScales_def seriesNames_def seriesMap_def series_points_def series_key_def
  isMultiSeries_def y_domain_def validValues_def js_or_def manual_bound_def chain_def

text \<open>
  C6. For the single series with the values -5 and 0 and the default settings (no manual
  bounds), the value domain the claim describes is the range from -5 to 0 padded by a tenth,
  that is -11/2 to 1/2. The code computes the maximum as \<^verbatim>\<open>d3.max(...) || 1\<close>, which
  replaces the maximum 0 by 1, and derives the domain -28/5 to 8/5.
\<close>

theorem value_domain_zero_max:
  "yScales example_env (Some default_settings) zero_max_series = [(''default'', (- 28 / 5, 8 / 5))]
   \<and> value_domain_spec (validValues zero_max_series) = (- 11 / 2, 1 / 2)"
  by (simp add: scale_defs zero_max_series_def plain_point_def default_settings_def
        value_domain_spec_def Let_def)

lemma d3_min_Min: "vs \<noteq> [] \<Longrightarrow> d3_min vs = Some (Min (set vs))"
proof (cases vs)
  case (Cons a list)
  then show ?thesis using Min.set_eq_fold [of a list] by simp
qed simp

lemma d3_max_Max: "vs \<noteq> [] \<Longrightarrow> d3_max vs = Some (Max (set vs))"
proof (cases vs)
  case (Cons a list)
  then show ?thesis using Max.set_eq_fold [of a list] by simp
qed simp

text \<open>
  Apart from a maximum of exactly 0, and where no manual bound applies, the code's domain
  is the one of the specification.
\<close>

lemma y_domain_auto:
  assumes "validValues pts \<noteq> []" and "Max (set (validValues pts)) \<noteq> 0"
    and "isMulti \<or> (manual_bound env (chain yAxisMin fs) = None \<and> manual_bound env (chain yAxisMax fs) = None)"
  shows "y_domain env fs isMulti pts = value_domain_spec (validValues pts)"
  using assms
  by (auto simp: y_domain_def value_domain_spec_def d3_min_Min d3_max_Max js_or_def Let_def)

lemma y_domain_multi: "y_domain env fs True pts = y_domain env' fs' True pts"
  by (simp add: y_domain_def)

lemma isMultiSeries_many: "1 < length ns \<Longrightarrow> isMultiSeries ns"
  by (simp add: isMultiSeries_def)

lemma seriesNames_keys: "seriesNames ds = first_keys (map series_key ds)"
  by (simp add: seriesNames_def seriesMap_def comp_def)

text \<open>
  C7. Unless exactly one series is present, the value scales do not depend on the
  formatting settings (nor on how a manual bound would parse): every series gets the domain
  computed from its own points alone, by the automatic rule with its padding. So the manual
  Y-axis bounds can only take effect when exactly one series is present, and are ignored
  whenever there are several.
\<close>

theorem manual_bounds_need_single_series:
  assumes "length (seriesNames ds) \<noteq> 1"
  shows "yScales env fs ds = yScales env' fs' ds
         \<and> yScales env fs ds =
             map (\<lambda>s. (s, y_domain env None True (series_points s ds))) (seriesNames ds)"
proof (cases "seriesNames ds = []")
  case True
  then have "seriesMap ds = []" by (simp add: seriesNames_def)
  then show ?thesis using True by (simp add: yScales_def)
next
  case False
  with assms have "1 < length (seriesNames ds)"
    by (cases "seriesNames ds") auto
  then have multi: "isMultiSeries (seriesNames ds)" by (rule isMultiSeries_many)
  have eq: "yScales e f ds = map (\<lambda>s. (s, y_domain e f True (series_points s ds))) (seriesNames ds)" for e f
    using multi by (simp add: yScales_def seriesNames_keys seriesMap_def comp_def)
  have "y_domain env fs True pts = y_domain env' fs' True pts" for pts
    by (rule y_domain_multi)
  moreover have "y_domain env fs True pts = y_domain env None True pts" for pts
    by (rule y_domain_multi)
  ultimately show ?thesis by (simp add: eq)
qed

theorem manual_bounds_need_single_series_witness:
  "yScales example_env (Some (default_settings\<lparr>yAxisMin := Some ''0''\<rparr>)) two_series
     = [(''A'', (- 1, 11)), (''B'', (900, 2100))]"
proof -
  have n: "length (seriesNames two_series) \<noteq> 1"
    by (simp add: seriesNames_def seriesMap_def series_key_def two_series_def plain_point_def)
  have "yScales example_env (Some (default_settings\<lparr>yAxisMin := Some ''0''\<rparr>)) two_series =
        map (\<lambda>s. (s, y_domain example_env None True (series_points s two_series))) (seriesNames two_series)"
    using manual_bounds_need_single_series [OF n] by blast
  also have "\<dots> = [(''A'', (- 1, 11)), (''B'', (900, 2100))]"
    by (simp add: scale_defs two_series_def plain_point_def Let_def)
  finally show ?thesis .
qed

subsection \<open>Brush handlers and the time scale\<close>

lemma updateRangeDisplay_frame:
  "\<exists>r. updateRangeDisplay env st = st\<lparr>rangeDisplay := r\<rparr>"
  by (auto simp: updateRangeDisplay_def Let_def split: option.splits)

lemma updateRangeDisplay_fields [simp]:
  "selectedStartDate (updateRangeDisplay env st) = selectedStartDate st"
  "selectedEndDate (updateRangeDisplay env st) = selectedEndDate st"
  "lastTimeRange (updateRangeDisplay env st) = lastTimeRange st"
  "appliedFilters (updateRangeDisplay env st) = appliedFilters st"
  "isProgrammaticBrushUpdate (updateRangeDisplay env st) = isProgrammaticBrushUpdate st"
  "filterColumnTarget (updateRangeDisplay env st) = filterColumnTarget st"
  "formattingSettings (updateRangeDisplay env st) = formattingSettings st"
  "xScale (updateRangeDisplay env st) = xScale st"
  "brush (updateRangeDisplay env st) = brush st"
  "flagResetTimers (updateRangeDisplay env st) = flagResetTimers st"
  using updateRangeDisplay_frame [of env st] by auto

lemma onBrush_fields [simp]:
  "lastTimeRange (onBrush st sel) = lastTimeRange st"
  "appliedFilters (onBrush st sel) = appliedFilters st"
  "isProgrammaticBrushUpdate (onBrush st sel) = isProgrammaticBrushUpdate st"
  "filterColumnTarget (onBrush st sel) = filterColumnTarget st"
  "formattingSettings (onBrush st sel) = formattingSettings st"
  "xScale (onBrush st sel) = xScale st"
  "flagResetTimers (onBrush st sel) = flagResetTimers st"
  by (auto simp: onBrush_def split: option.splits prod.splits)

lemma onBrush_selection:
  "xScale st = Some sc \<Longrightarrow>
   selectedStartDate (onBrush st (Some (x0, x1))) = Some (xScale_invert sc x0)
   \<and> selectedEndDate (onBrush st (Some (x0, x1))) = Some (xScale_invert sc x1)"
  by (simp add: onBrush_def)

lemma onBrushEnd_guarded:
  "isProgrammaticBrushUpdate st \<Longrightarrow> appliedFilters (onBrushEnd env st sel) = appliedFilters st"
  by (auto simp: onBrushEnd_def Let_def split: option.splits prod.splits)

lemma onBrushEnd_fields [simp]:
  "lastTimeRange (onBrushEnd env st sel) = lastTimeRange st"
  "isProgrammaticBrushUpdate (onBrushEnd env st sel) = isProgrammaticBrushUpdate st"
  "filterColumnTarget (onBrushEnd env st sel) = filterColumnTarget st"
  "formattingSettings (onBrushEnd env st sel) = formattingSettings st"
  "xScale (onBrushEnd env st sel) = xScale st"
  "flagResetTimers (onBrushEnd env st sel) = flagResetTimers st"
  by (auto simp: onBrushEnd_def Let_def split: option.splits prod.splits)

lemma onBrushEnd_selection_kept:
  "selectedStartDate (onBrushEnd env st (Some sel)) = selectedStartDate st"
  "selectedEndDate (onBrushEnd env st (Some sel)) = selectedEndDate st"
  by (auto simp: onBrushEnd_def Let_def split: option.splits prod.splits)

lemma brush_move_fields [simp]:
  "lastTimeRange (brush_move env st sel) = lastTimeRange st"
  "isProgrammaticBrushUpdate (brush_move env st sel) = isProgrammaticBrushUpdate st"
  "filterColumnTarget (brush_move env st sel) = filterColumnTarget st"
  "formattingSettings (brush_move env st sel) = formattingSettings st"
  "xScale (brush_move env st sel) = xScale st"
  "flagResetTimers (brush_move env st sel) = flagResetTimers st"
  by (simp_all add: brush_move_def)

lemma brush_move_selection:
  "xScale st = Some sc \<Longrightarrow>
   selectedStartDate (brush_move env st (x0, x1)) = Some (xScale_invert sc x0)
   \<and> selectedEndDate (brush_move env st (x0, x1)) = Some (xScale_invert sc x1)"
  by (simp add: brush_move_def onBrushEnd_selection_kept onBrush_selection)

lemma brush_move_guarded:
  "isProgrammaticBrushUpdate st \<Longrightarrow> appliedFilters (brush_move env st sel) = appliedFilters st"
  by (simp add: brush_move_def onBrushEnd_guarded)

lemma restore_no_filter: "appliedFilters (restoreBrushSelection env st) = appliedFilters st"
  by (auto simp: restoreBrushSelection_def Let_def brush_move_guarded split: option.splits)

lemma restore_fields [simp]:
  "lastTimeRange (restoreBrushSelection env st) = lastTimeRange st"
  "filterColumnTarget (restoreBrushSelection env st) = filterColumnTarget st"
  "formattingSettings (restoreBrushSelection env st) = formattingSettings st"
  "xScale (restoreBrushSelection env st) = xScale st"
  by (auto simp: restoreBrushSelection_def Let_def split: option.splits)

lemma restore_selection:
  assumes "selectedStartDate st = Some a" "selectedEndDate st = Some b" "xScale st = Some sc" "brush st"
  shows "selectedStartDate (restoreBrushSelection env st) = Some (xScale_invert sc (xScale_apply sc a))"
    and "selectedEndDate (restoreBrushSelection env st) = Some (xScale_invert sc (xScale_apply sc b))"
    and "isProgrammaticBrushUpdate (restoreBrushSelection env st)"
    and "flagResetTimers (restoreBrushSelection env st) = flagResetTimers st + 1"
  using assms
  by (simp_all add: restoreBrushSelection_def Let_def
        brush_move_selection [where sc = sc and st = "st\<lparr>isProgrammaticBrushUpdate := True\<rparr>"])

lemma trunc_rat_of_int [simp]: "trunc_rat (of_int i) = i"
  by (simp add: trunc_rat_def)


lemma xScale_invert_ends:
  assumes "range1 sc \<noteq> 0"
  shows "xScale_invert sc 0 = domain0 sc" and "xScale_invert sc (range1 sc) = domain1 sc"
  using assms by (simp_all add: xScale_invert_def Let_def)

lemma chartWidth_pos: "0 < chartWidth fs w"
  by (simp add: chartWidth_def max_def)

subsection \<open>The update cycle\<close>

lemma timeExtent_nonempty: "ds \<noteq> [] \<Longrightarrow> \<exists>mn mx. timeExtent ds = Some (mn, mx)"
  by (cases ds) (simp_all add: timeExtent_def)

lemma timeExtent_empty: "timeExtent [] = None"
  by (simp add: timeExtent_def)

lemma prepare_fields [simp]:
  "selectedStartDate (prepare env opts st) = selectedStartDate st"
  "selectedEndDate (prepare env opts st) = selectedEndDate st"
  "lastTimeRange (prepare env opts st) = lastTimeRange st"
  "appliedFilters (prepare env opts st) = appliedFilters st"
  "isProgrammaticBrushUpdate (prepare env opts st) = isProgrammaticBrushUpdate st"
  "flagResetTimers (prepare env opts st) = flagResetTimers st"
  "xScale (prepare env opts st) = xScale st"
  "brush (prepare env opts st) = brush st"
  "data (prepare env opts st) = parseData env (dataViews opts)"
  "filterColumnTarget (prepare env opts st) = filter_target (dataViews opts)"
  "formattingSettings (prepare env opts st) =
     (if dataViews opts \<noteq> None then Some (settingsModel opts) else formattingSettings st)"
  by (simp_all add: prepare_def Let_def)

lemma update_placeholder:
  "placeholder_path env opts \<Longrightarrow> update env opts st = Some (showNoDataMessage (prepare env opts st))"
  by (auto simp: update_def placeholder_path_def Let_def)

lemma update_render:
  "\<not> placeholder_path env opts \<Longrightarrow>
   update env opts st =
     renderChart env (max 0 (viewport_width opts)) (max 0 (viewport_height opts)) (prepare env opts st)"
  by (auto simp: update_def placeholder_path_def Let_def)

lemma renderChart_restore:
  assumes "timeExtent (data st) = Some (mn, mx)" and "lastTimeRange st = Some (mn, mx)"
    and "selectedStartDate st = Some a" and "selectedEndDate st = Some b"
  shows "renderChart env w h st =
           Some (restoreBrushSelection env
                   (st\<lparr>lastTimeRange := Some (mn, mx),
                       xScale := Some \<lparr>domain0 = mn, domain1 = mx,
                                       range1 = chartWidth (formattingSettings st) w\<rparr>,
                       placeholderShown := False, brush := True\<rparr>))"
  using assms by (simp add: renderChart_def Let_def)

lemma renderChart_init:
  assumes "timeExtent (data st) = Some (mn, mx)"
    and "(\<exists>old. lastTimeRange st = Some old \<and> old \<noteq> (mn, mx))
         \<or> selectedStartDate st = None \<or> selectedEndDate st = None"
  shows "renderChart env w h st =
           Some (brush_move env
                   (updateRangeDisplay env
                      (st\<lparr>lastTimeRange := Some (mn, mx),
                          xScale := Some \<lparr>domain0 = mn, domain1 = mx,
                                          range1 = chartWidth (formattingSettings st) w\<rparr>,
                          placeholderShown := False, brush := True,
                          selectedStartDate := Some mn, selectedEndDate := Some mx\<rparr>))
                   (0, chartWidth (formattingSettings st) w))"
  using assms by (auto simp: renderChart_def Let_def split: option.splits)

lemma renderChart_init_selection:
  assumes "timeExtent (data st) = Some (mn, mx)"
    and "(\<exists>old. lastTimeRange st = Some old \<and> old \<noteq> (mn, mx))
         \<or> selectedStartDate st = None \<or> selectedEndDate st = None"
  shows "\<exists>st'. renderChart env w h st = Some st' \<and> selectedStartDate st' = Some mn
           \<and> selectedEndDate st' = Some mx \<and> lastTimeRange st' = Some (mn, mx)"
proof -
  let ?cw = "chartWidth (formattingSettings st) w"
  let ?sc = "\<lparr>domain0 = mn, domain1 = mx, range1 = ?cw\<rparr>"
  let ?s = "updateRangeDisplay env
              (st\<lparr>lastTimeRange := Some (mn, mx), xScale := Some ?sc,
                  placeholderShown := False, brush := True,
                  selectedStartDate := Some mn, selectedEndDate := Some mx\<rparr>)"
  have cw: "range1 ?sc \<noteq> 0" using chartWidth_pos [of "formattingSettings st" w] by simp
  have sc: "xScale ?s = Some ?sc" by simp
  have "selectedStartDate (brush_move env ?s (0, ?cw)) = Some mn"
    "selectedEndDate (brush_move env ?s (0, ?cw)) = Some mx"
    using brush_move_selection [OF sc, of env 0 ?cw] xScale_invert_ends [OF cw] by simp_all
  moreover have "lastTimeRange (brush_move env ?s (0, ?cw)) = Some (mn, mx)" by simp
  ultimately show ?thesis using renderChart_init [OF assms, of env w h] by simp
qed


lemma renderChart_restore_no_filter:
  assumes "timeExtent (data st) = Some (mn, mx)" and "lastTimeRange st = Some (mn, mx)"
    and "selectedStartDate st = Some a" and "selectedEndDate st = Some b"
  shows "\<exists>st'. renderChart env w h st = Some st' \<and> appliedFilters st' = appliedFilters st
           \<and> isProgrammaticBrushUpdate st' \<and> flagResetTimers st' = flagResetTimers st + 1"
proof -
  let ?cw = "chartWidth (formattingSettings st) w"
  let ?sc = "\<lparr>domain0 = mn, domain1 = mx, range1 = ?cw\<rparr>"
  let ?s = "st\<lparr>lastTimeRange := Some (mn, mx), xScale := Some ?sc,
               placeholderShown := False, brush := True\<rparr>"
  have s: "selectedStartDate ?s = Some a" "selectedEndDate ?s = Some b" "xScale ?s = Some ?sc" "brush ?s"
    using assms(3,4) by simp_all
  note r = restore_selection [OF s, of env]
  have "appliedFilters (restoreBrushSelection env ?s) = appliedFilters st"
    by (simp add: restore_no_filter)
  then show ?thesis
    using renderChart_restore [OF assms(1-4), of env w h] r by simp
qed

text \<open>
  C1. An end event handled while the programmatic-update guard is set submits no filter.
  \<open>restoreBrushSelection\<close> sets the guard before it moves the brush, and the move dispatches
  its end event before it returns, so a programmatic restore never adds a call of
  \<^verbatim>\<open>applyJsonFilter\<close>. Hence an update cycle that finds a selection and whose data extent
  equals the extent recorded at the last render (a resize-only cycle) returns with the log of
  filter submissions unchanged; when it renders, the guard is left set with one more reset
  timer pending.
\<close>

theorem restore_emits_no_filter:
  "(\<forall>(st::visual) sel. isProgrammaticBrushUpdate st \<longrightarrow>
        appliedFilters (onBrushEnd env st sel) = appliedFilters st)
   \<and> (\<forall>st. appliedFilters (restoreBrushSelection env st) = appliedFilters st)
   \<and> (\<forall>(opts::update_options) (st::visual). lastTimeRange st = timeExtent (parseData env (dataViews opts))
         \<and> selectedStartDate st \<noteq> None \<and> selectedEndDate st \<noteq> None \<longrightarrow>
         (\<exists>st'. update env opts st = Some st' \<and> appliedFilters st' = appliedFilters st
            \<and> (\<not> placeholder_path env opts \<longrightarrow>
                 isProgrammaticBrushUpdate st' \<and> flagResetTimers st' = flagResetTimers st + 1)))"
proof (intro conjI allI impI)
  fix st :: visual and sel assume "isProgrammaticBrushUpdate st"
  then show "appliedFilters (onBrushEnd env st sel) = appliedFilters st" by (rule onBrushEnd_guarded)
next
  fix st show "appliedFilters (restoreBrushSelection env st) = appliedFilters st"
    by (rule restore_no_filter)
next
  fix opts :: update_options and st :: visual
  assume h: "lastTimeRange st = timeExtent (parseData env (dataViews opts))
         \<and> selectedStartDate st \<noteq> None \<and> selectedEndDate st \<noteq> None"
  then obtain a b where ab: "selectedStartDate st = Some a" "selectedEndDate st = Some b" by auto
  show "\<exists>st'. update env opts st = Some st' \<and> appliedFilters st' = appliedFilters st
            \<and> (\<not> placeholder_path env opts \<longrightarrow>
                 isProgrammaticBrushUpdate st' \<and> flagResetTimers st' = flagResetTimers st + 1)"
  proof (cases "placeholder_path env opts")
    case True
    then show ?thesis by (simp add: update_placeholder showNoDataMessage_def)
  next
    case False
    then have "parseData env (dataViews opts) \<noteq> []" by (simp add: placeholder_path_def)
    from timeExtent_nonempty [OF this] obtain mn mx
      where te: "timeExtent (parseData env (dataViews opts)) = Some (mn, mx)" by blast
    let ?p = "prepare env opts st"
    have "\<exists>st'. renderChart env (max 0 (viewport_width opts)) (max 0 (viewport_height opts)) ?p = Some st'
            \<and> appliedFilters st' = appliedFilters ?p
            \<and> isProgrammaticBrushUpdate st' \<and> flagResetTimers st' = flagResetTimers ?p + 1"
      using te h ab by (intro renderChart_restore_no_filter [where mn = mn and mx = mx and a = a and b = b]) simp_all
    then show ?thesis using False by (simp add: update_render)
  qed
qed

lemma renderChart_lastTimeRange:
  assumes "timeExtent (data st) = Some (mn, mx)"
  shows "\<exists>st'. renderChart env w h st = Some st' \<and> lastTimeRange st' = Some (mn, mx)"
  using assms by (auto simp: renderChart_def Let_def split: option.splits)




lemma showNoDataMessage_fields [simp]:
  "selectedStartDate (showNoDataMessage st) = selectedStartDate st"
  "selectedEndDate (showNoDataMessage st) = selectedEndDate st"
  "lastTimeRange (showNoDataMessage st) = lastTimeRange st"
  "appliedFilters (showNoDataMessage st) = appliedFilters st"
  "isProgrammaticBrushUpdate (showNoDataMessage st) = isProgrammaticBrushUpdate st"
  "flagResetTimers (showNoDataMessage st) = flagResetTimers st"
  "placeholderShown (showNoDataMessage st) = True"
  "rangeDisplay (showNoDataMessage st) = ''Add a timestamp field and data to use the time brush slicer''"
  by (simp_all add: showNoDataMessage_def)




subsection \<open>A session\<close>

lemma example_extent: "timeExtent (parseData example_env example_view) = Some (0, 10000)"
  by (simp add: example_model timeExtent_def plain_point_def gap_point_def)

lemma duplicate_extent: "timeExtent (parseData example_env duplicate_view) = Some (5, 5)"
  by (simp add: duplicate_model timeExtent_def plain_point_def)

lemma first_render_fields:
  assumes "\<not> placeholder_path env opts"
    and "timeExtent (parseData env (dataViews opts)) = Some (mn, mx)"
    and "dataViews opts \<noteq> None"
  shows "\<exists>st'. update env opts initial_visual = Some st'
           \<and> selectedStartDate st' = Some mn \<and> selectedEndDate st' = Some mx
           \<and> lastTimeRange st' = Some (mn, mx)
           \<and> xScale st' = Some \<lparr>domain0 = mn, domain1 = mx,
                                 range1 = chartWidth (Some (settingsModel opts)) (max 0 (viewport_width opts))\<rparr>
           \<and> \<not> isProgrammaticBrushUpdate st'
           \<and> filterColumnTarget st' = filter_target (dataViews opts)
           \<and> formattingSettings st' = Some (settingsModel opts)"
proof -
  let ?p = "prepare env opts initial_visual"
  have te: "timeExtent (data ?p) = Some (mn, mx)" using assms(2) by simp
  have none: "(\<exists>old. lastTimeRange ?p = Some old \<and> old \<noteq> (mn, mx))
         \<or> selectedStartDate ?p = None \<or> selectedEndDate ?p = None"
    by (simp add: initial_visual_def)
  note sel = renderChart_init_selection [OF te none, of env "max 0 (viewport_width opts)" "max 0 (viewport_height opts)"]
  note eq = renderChart_init [OF te none, of env "max 0 (viewport_width opts)" "max 0 (viewport_height opts)"]
  have np: "\<not> isProgrammaticBrushUpdate ?p" by (simp add: initial_visual_def)
  show ?thesis
    using sel eq np assms(1,3) by (auto simp: update_render)
qed

lemma first_not_placeholder: "\<not> placeholder_path example_env first_options"
  by (simp add: placeholder_path_def first_options_def example_model)


lemma example_target: "filter_target example_view = Some (''Readings'', ''Timestamp'')"
  by code_simp

lemma example_width: "chartWidth (Some default_settings) 400 = 400"
  by (simp add: chartWidth_def setting_def default_settings_def)

lemma rendered_state_fields:
  "update example_env first_options initial_visual = Some rendered_state"
  "selectedStartDate rendered_state = Some 0" "selectedEndDate rendered_state = Some 10000"
  "lastTimeRange rendered_state = Some (0, 10000)"
  "xScale rendered_state = Some \<lparr>domain0 = 0, domain1 = 10000, range1 = 400\<rparr>"
  "\<not> isProgrammaticBrushUpdate rendered_state"
  "filterColumnTarget rendered_state = Some (''Readings'', ''Timestamp'')"
  "formattingSettings rendered_state = Some default_settings"
proof -
  have te: "timeExtent (parseData example_env (dataViews first_options)) = Some (0, 10000)"
    by (simp add: first_options_def example_extent)
  have dv: "dataViews first_options \<noteq> None"
    by (simp add: first_options_def example_view_def view_of_def)
  from first_render_fields [OF first_not_placeholder te dv]
  obtain st' where "update example_env first_options initial_visual = Some st'"
    and "selectedStartDate st' = Some 0" "selectedEndDate st' = Some 10000"
    and "lastTimeRange st' = Some (0, 10000)"
    and "xScale st' = Some \<lparr>domain0 = 0, domain1 = 10000,
                                 range1 = chartWidth (Some (settingsModel first_options)) (max 0 (viewport_width first_options))\<rparr>"
    and "\<not> isProgrammaticBrushUpdate st'"
    and "filterColumnTarget st' = filter_target (dataViews first_options)"
    and "formattingSettings st' = Some (settingsModel first_options)" by blast
  then show "update example_env first_options initial_visual = Some rendered_state"
  "selectedStartDate rendered_state = Some 0" "selectedEndDate rendered_state = Some 10000"
  "lastTimeRange rendered_state = Some (0, 10000)"
  "xScale rendered_state = Some \<lparr>domain0 = 0, domain1 = 10000, range1 = 400\<rparr>"
  "\<not> isProgrammaticBrushUpdate rendered_state"
  "filterColumnTarget rendered_state = Some (''Readings'', ''Timestamp'')"
  "formattingSettings rendered_state = Some default_settings"
    by (simp_all add: rendered_state_def first_options_def example_target example_width)
qed


lemma example_inverts:
  "xScale_invert \<lparr>domain0 = 0, domain1 = 10000, range1 = 400\<rparr> 80 = 2000"
  "xScale_invert \<lparr>domain0 = 0, domain1 = 10000, range1 = 400\<rparr> 120 = 3000"
  by (simp_all add: xScale_invert_def trunc_rat_def)

lemma brushed_state_fields:
  "selectedStartDate brushed_state = Some 2000" "selectedEndDate brushed_state = Some 3000"
  "lastTimeRange brushed_state = Some (0, 10000)"
  using onBrush_selection [OF rendered_state_fields(5), of 80 120]
  by (simp_all add: brushed_state_def onBrushEnd_selection_kept example_inverts rendered_state_fields)

lemma resized_not_placeholder: "\<not> placeholder_path example_env resized_options"
  by (simp add: placeholder_path_def resized_options_def first_options_def example_model)



lemma option_extents:
  "timeExtent (parseData example_env (dataViews resized_options)) = Some (0, 10000)"
  "timeExtent (parseData example_env (dataViews first_options)) = Some (0, 10000)"
  "timeExtent (parseData example_env (dataViews changed_options)) = Some (5, 5)"
  "timeExtent (parseData example_env (dataViews tiny_changed_options)) = Some (5, 5)"
  by (simp_all add: resized_options_def first_options_def changed_options_def
        tiny_changed_options_def example_extent duplicate_extent)

theorem restore_emits_no_filter_witness:
  "\<exists>st'. update example_env resized_options brushed_state = Some st'
       \<and> appliedFilters st' = appliedFilters brushed_state
       \<and> isProgrammaticBrushUpdate st'
       \<and> flagResetTimers st' = flagResetTimers brushed_state + 1"
proof -
  have h: "lastTimeRange brushed_state = timeExtent (parseData example_env (dataViews resized_options))
         \<and> selectedStartDate brushed_state \<noteq> None \<and> selectedEndDate brushed_state \<noteq> None"
    by (simp add: brushed_state_fields option_extents)
  from restore_emits_no_filter [of example_env, THEN conjunct2, THEN conjunct2, THEN spec, THEN spec,
      THEN mp, OF h] resized_not_placeholder
  show ?thesis by blast
qed








text \<open>
  The tokens of \<open>createDateFormatter\<close> on one instant: year, month, day, 24-hour and
  12-hour hour, minute, second, millisecond and am/pm. The substitutions are applied one
  after the other to the whole text, so a later pass also rewrites letters that an earlier pass
  produced: the \<^verbatim>\<open>t\<close> of a month name is taken for the am/pm token.
\<close>

lemma tokens_rendered:
  "createDateFormatter
     (example_env\<lparr>local_fields := (\<lambda>t. \<lparr> fullYear = 2024, month0 = 2, dayOfMonth = 5, hours = 14,
                                            minutes = 7, seconds = 9, milliseconds = 42 \<rparr>)\<rparr>)
     ''yyyy/yy MM/M dd/d HH/H hh/h mm/m ss/s fff tt/t'' 0
   = ''2024/24 03/3 05/5 14/14 02/2 07/7 09/9 042 PM/P''"
  by code_simp

lemma month_name_rescanned:
  "createDateFormatter
     (example_env\<lparr>local_fields := (\<lambda>t. \<lparr> fullYear = 2024, month0 = 9, dayOfMonth = 5, hours = 14,
                                            minutes = 7, seconds = 9, milliseconds = 42 \<rparr>)\<rparr>)
     ''MMM d, yyyy'' 0
   = ''OcP 5, 2024''"
  by code_simp

subsection \<open>Manual bounds on a single series\<close>

text \<open>
  With the single unnamed series a manual minimum takes effect; a single series with a name
  of its own counts as multi-series and keeps the automatic domain.
\<close>

lemma manual_bound_single_default:
  "yScales example_env (Some default_settings) (plain_series ''default'') = [(''default'', (9 / 2, 21 / 2))]"
  "yScales example_env (Some (default_settings\<lparr>yAxisMin := Some ''0''\<rparr>)) (plain_series ''default'')
     = [(''default'', (- 1, 11))]"
  by (simp_all add: scale_defs plain_series_def plain_point_def default_settings_def example_env_def Let_def)

lemma manual_bound_single_named:
  "yScales example_env (Some (default_settings\<lparr>yAxisMin := Some ''0''\<rparr>)) (plain_series ''A'')
     = [(''A'', (9 / 2, 21 / 2))]"
  by (simp add: scale_defs plain_series_def plain_point_def default_settings_def example_env_def Let_def)

subsection \<open>Steps of the visual\<close>

text \<open>
  Every event is handled without an exception, and from the initial state on a recorded
  extent always comes with a selection: the restore branch of \<open>renderChart\<close> is the one an
  update with an unchanged extent takes.
\<close>

lemma renderChart_restore_first:
  assumes "timeExtent (data st) = Some (mn, mx)"
    and "lastTimeRange st = None \<or> lastTimeRange st = Some (mn, mx)"
    and "selectedStartDate st = Some a" and "selectedEndDate st = Some b"
  shows "renderChart env w h st =
           Some (restoreBrushSelection env
                   (st\<lparr>lastTimeRange := Some (mn, mx),
                       xScale := Some \<lparr>domain0 = mn, domain1 = mx,
                                       range1 = chartWidth (formattingSettings st) w\<rparr>,
                       placeholderShown := False, brush := True\<rparr>))"
  using assms by (auto simp: renderChart_def Let_def)

lemma renderChart_selects:
  assumes "renderChart env w h st = Some st'"
  shows "selectedStartDate st' \<noteq> None \<and> selectedEndDate st' \<noteq> None"
proof -
  from assms obtain mn mx where te: "timeExtent (data st) = Some (mn, mx)"
    by (auto simp: renderChart_def split: option.splits)
  show ?thesis
  proof (cases "(\<exists>old. lastTimeRange st = Some old \<and> old \<noteq> (mn, mx))
         \<or> selectedStartDate st = None \<or> selectedEndDate st = None")
    case True
    from renderChart_init_selection [OF te True, of env w h] assms show ?thesis by auto
  next
    case False
    then obtain a b where ab: "selectedStartDate st = Some a" "selectedEndDate st = Some b"
      and l: "lastTimeRange st = None \<or> lastTimeRange st = Some (mn, mx)"
      by (cases "lastTimeRange st") auto
    let ?sc = "\<lparr>domain0 = mn, domain1 = mx, range1 = chartWidth (formattingSettings st) w\<rparr>"
    let ?s = "st\<lparr>lastTimeRange := Some (mn, mx), xScale := Some ?sc,
               placeholderShown := False, brush := True\<rparr>"
    have s: "selectedStartDate ?s = Some a" "selectedEndDate ?s = Some b" "xScale ?s = Some ?sc" "brush ?s"
      using ab by simp_all
    from restore_selection(1,2) [OF s, of env] renderChart_restore_first [OF te l ab, of env w h] assms
    show ?thesis by auto
  qed
qed

lemma selection_recorded_initial: "selection_recorded initial_visual"
  by (simp add: selection_recorded_def initial_visual_def)

lemma selection_recorded_step:
  assumes "selection_recorded st" and "step env e st = Some st'"
  shows "selection_recorded st'"
proof (cases e)
  case (Update opts)
  show ?thesis
  proof (cases "placeholder_path env opts")
    case True
    with assms Update show ?thesis
      by (auto simp: step_def update_placeholder selection_recorded_def)
  next
    case False
    with assms Update have "renderChart env (max 0 (viewport_width opts)) (max 0 (viewport_height opts))
        (prepare env opts st) = Some st'" by (simp add: step_def update_render)
    from renderChart_selects [OF this] show ?thesis by (simp add: selection_recorded_def)
  qed
next
  case (BrushEvent sel)
  with assms show ?thesis
    by (auto simp: step_def selection_recorded_def onBrush_def split: option.splits prod.splits)
next
  case (EndEvent sel)
  with assms show ?thesis
    by (auto simp: step_def selection_recorded_def onBrushEnd_def Let_def split: option.splits prod.splits)
next
  case FlagResetTimer
  with assms show ?thesis by (auto simp: step_def selection_recorded_def flagResetFires_def)
next
  case DisplayTimer
  with assms show ?thesis by (auto simp: step_def selection_recorded_def displayTimerFires_def)
qed

lemma step_returns: "\<exists>st'. step env e st = Some st'"
proof (cases e)
  case (Update opts)
  show ?thesis
  proof (cases "placeholder_path env opts")
    case True
    with Update show ?thesis by (simp add: step_def update_placeholder)
  next
    case False
    then have "parseData env (dataViews opts) \<noteq> []" by (simp add: placeholder_path_def)
    from timeExtent_nonempty [OF this] obtain mn mx
      where "timeExtent (data (prepare env opts st)) = Some (mn, mx)" by auto
    from renderChart_lastTimeRange [OF this, of env "max 0 (viewport_width opts)"
        "max 0 (viewport_height opts)"]
    obtain st' where "renderChart env (max 0 (viewport_width opts)) (max 0 (viewport_height opts))
        (prepare env opts st) = Some st'" by blast
    with False Update show ?thesis by (simp add: step_def update_render)
  qed
qed (simp_all add: step_def)

end
